theory Spec2Isabelle
  imports Complex_Main "HOL-Library.Sublist" "HOL-Library.Log_Nat"
begin

section \<open>JavaScript strings\<close>

text \<open>
  A JavaScript string is a sequence of UTF-16 code units. It is modelled as a
  \<^typ>\<open>string\<close>, one \<^typ>\<open>char\<close> for one code unit, so the model covers the
  strings whose code units are below 256 (Basic Latin and Latin-1), and \<open>length\<close>,
  \<open>take\<close> and \<open>drop\<close> count what \<open>.length\<close> and \<open>.slice\<close> count.
\<close>

definition code :: "char \<Rightarrow> nat" where
  "code c = of_char c"

text \<open>The class \<open>\s\<close> of a regular expression, and what \<open>trim\<close> removes:
  TAB, LF, VT, FF, CR, SPACE and NO-BREAK SPACE are its members below 256.\<close>

definition isSpace :: "char \<Rightarrow> bool" where
  "isSpace c = (code c \<in> {9, 10, 11, 12, 13, 32, 160})"

definition isLower :: "char \<Rightarrow> bool" where
  "isLower c = (97 \<le> code c \<and> code c \<le> 122)"

definition isUpper :: "char \<Rightarrow> bool" where
  "isUpper c = (65 \<le> code c \<and> code c \<le> 90)"

definition isDigit :: "char \<Rightarrow> bool" where
  "isDigit c = (48 \<le> code c \<and> code c \<le> 57)"

text \<open>\<open>String.prototype.toLowerCase\<close>: below 256 the letters with a lower-case
  partner are A-Z and the Latin-1 capitals 0xC0-0xDE without the multiplication
  sign 0xD7; the partner is 32 code units higher.\<close>

definition toLowerChar :: "char \<Rightarrow> char" where
  "toLowerChar c =
     (if isUpper c \<or> (192 \<le> code c \<and> code c \<le> 222 \<and> code c \<noteq> 215)
      then char_of (code c + 32) else c)"

definition toLowerCase :: "string \<Rightarrow> string" where
  "toLowerCase s = map toLowerChar s"

definition trim :: "string \<Rightarrow> string" where
  "trim s = rev (dropWhile isSpace (rev (dropWhile isSpace s)))"

text \<open>\<open>s.replace(/[^...]/g, " ")\<close>: every character outside the class \<open>keep\<close>
  becomes one space.\<close>

definition replaceOutside :: "(char \<Rightarrow> bool) \<Rightarrow> string \<Rightarrow> string" where
  "replaceOutside keep s = map (\<lambda>c. if keep c then c else CHR '' '') s"

text \<open>\<open>s.split(/C+/)\<close> for a character class \<open>C\<close>: the pieces between the maximal
  runs of separator characters. A string that starts (ends) with a separator has an
  empty first (last) piece, and the empty string splits into one empty piece.\<close>

function splitRuns :: "(char \<Rightarrow> bool) \<Rightarrow> string \<Rightarrow> string list" where
  "splitRuns sep [] = [[]]"
| "splitRuns sep (c # cs) =
     (if sep c then [] # splitRuns sep (dropWhile sep cs)
      else (case splitRuns sep cs of
              [] \<Rightarrow> [[c]]
            | p # ps \<Rightarrow> (c # p) # ps))"
  by pat_completeness auto
termination
  by (relation "measure (\<lambda>(sep, s). length s)")
     (auto simp: le_imp_less_Suc length_dropWhile_le)

text \<open>\<open>s.split(" ")\<close>: the pieces between single spaces.\<close>

fun splitSpace :: "string \<Rightarrow> string list" where
  "splitSpace [] = [[]]"
| "splitSpace (c # cs) =
     (if c = CHR '' '' then [] # splitSpace cs
      else (case splitSpace cs of
              [] \<Rightarrow> [[c]]
            | p # ps \<Rightarrow> (c # p) # ps))"

text \<open>\<open>xs.join(" ")\<close>.\<close>

fun joinSpace :: "string list \<Rightarrow> string" where
  "joinSpace [] = []"
| "joinSpace [w] = w"
| "joinSpace (w # ws) = w @ CHR '' '' # joinSpace ws"

text \<open>\<open>s.indexOf(t, from)\<close>: the least position at or after \<open>from\<close> where \<open>t\<close>
  occurs in \<open>s\<close>; \<open>None\<close> stands for the result \<open>-1\<close>.\<close>

definition indexOf :: "string \<Rightarrow> string \<Rightarrow> nat \<Rightarrow> nat option" where
  "indexOf s t from =
     find (\<lambda>k. take (length t) (drop k s) = t) [min from (length s) ..< Suc (length s)]"

section \<open>JavaScript numbers\<close>

text \<open>
  A Number is an IEEE 754 binary64 value. A finite one is the rational it denotes;
  \<open>NaN\<close> and the two infinities are values of their own, so that a division by zero
  shows in the result. Two things are left out: the sign of zero (every zero the
  programs divide by is a length, hence \<open>+0\<close>, and \<open>JSON.stringify\<close> prints \<open>-0\<close> as
  \<open>0\<close>), and the limits of the exponent (no text a JavaScript engine can hold brings a
  count near \<open>2^1024\<close> or a ratio near \<open>2^-1022\<close>).
\<close>

datatype jsnum = Num rat | NaN | Infinity | NegInfinity

definition pow2 :: "int \<Rightarrow> rat" where
  "pow2 e = (if 0 \<le> e then 2 ^ nat e else 1 / 2 ^ nat (- e))"

text \<open>For \<open>0 < a\<close>, the \<open>e\<close> with \<open>2^e \<le> a < 2^(e+1)\<close>; \<open>- \<lfloor>- x\<rfloor>\<close> is \<open>x\<close> rounded
  up.\<close>

definition exponent :: "rat \<Rightarrow> int" where
  "exponent a = (if 1 \<le> a then bitlen \<lfloor>a\<rfloor> - 1 else - bitlen (- \<lfloor>- (1 / a)\<rfloor> - 1))"

definition roundHalfEven :: "rat \<Rightarrow> int" where
  "roundHalfEven y =
     (let f = \<lfloor>y\<rfloor>; r = y - of_int f
      in if r < 1 / 2 then f
         else if 1 / 2 < r then f + 1
         else if even f then f else f + 1)"

text \<open>Rounding a real result to binary64: the nearest number with a significand of
  53 bits, a tie going to the even significand.\<close>

definition fround :: "rat \<Rightarrow> rat" where
  "fround x =
     (if x = 0 then 0
      else let a = \<bar>x\<bar>; u = pow2 (exponent a - 52)
           in sgn x * of_int (roundHalfEven (a / u)) * u)"

text \<open>A numeric literal of the source text, such as \<open>206.835\<close>.\<close>

definition lit :: "rat \<Rightarrow> jsnum" where
  "lit x = Num (fround x)"

text \<open>A length or a count: an integer, exact as a Number.\<close>

definition ofNat :: "nat \<Rightarrow> jsnum" where
  "ofNat n = Num (of_nat n)"

fun jsneg :: "jsnum \<Rightarrow> jsnum" where
  "jsneg (Num a) = Num (- a)"
| "jsneg NaN = NaN"
| "jsneg Infinity = NegInfinity"
| "jsneg NegInfinity = Infinity"

text \<open>An infinite result: the given infinity when \<open>same\<close>, the opposite one
  otherwise.\<close>

definition signedInf :: "bool \<Rightarrow> jsnum \<Rightarrow> jsnum" where
  "signedInf same i = (if same then i else jsneg i)"

fun jsdiv :: "jsnum \<Rightarrow> jsnum \<Rightarrow> jsnum" where
  "jsdiv (Num a) (Num b) =
     (if b \<noteq> 0 then Num (fround (a / b))
      else if a = 0 then NaN
      else if 0 < a then Infinity else NegInfinity)"
| "jsdiv (Num a) Infinity = Num 0"
| "jsdiv (Num a) NegInfinity = Num 0"
| "jsdiv Infinity (Num b) = signedInf (0 \<le> b) Infinity"
| "jsdiv NegInfinity (Num b) = signedInf (0 \<le> b) NegInfinity"
| "jsdiv _ _ = NaN"

fun jsmul :: "jsnum \<Rightarrow> jsnum \<Rightarrow> jsnum" where
  "jsmul (Num a) (Num b) = Num (fround (a * b))"
| "jsmul NaN _ = NaN"
| "jsmul _ NaN = NaN"
| "jsmul (Num a) i = (if a = 0 then NaN else signedInf (0 < a) i)"
| "jsmul i (Num b) = (if b = 0 then NaN else signedInf (0 < b) i)"
| "jsmul Infinity i = i"
| "jsmul NegInfinity i = jsneg i"

fun jsadd :: "jsnum \<Rightarrow> jsnum \<Rightarrow> jsnum" where
  "jsadd (Num a) (Num b) = Num (fround (a + b))"
| "jsadd NaN _ = NaN"
| "jsadd _ NaN = NaN"
| "jsadd (Num a) i = i"
| "jsadd i (Num b) = i"
| "jsadd Infinity NegInfinity = NaN"
| "jsadd NegInfinity Infinity = NaN"
| "jsadd i _ = i"

definition jssub :: "jsnum \<Rightarrow> jsnum \<Rightarrow> jsnum" where
  "jssub x y = jsadd x (jsneg y)"

text \<open>\<open>x < y\<close>: false as soon as one side is \<open>NaN\<close>.\<close>

fun jsless :: "jsnum \<Rightarrow> jsnum \<Rightarrow> bool" where
  "jsless (Num a) (Num b) = (a < b)"
| "jsless NaN _ = False"
| "jsless _ NaN = False"
| "jsless NegInfinity NegInfinity = False"
| "jsless NegInfinity _ = True"
| "jsless _ NegInfinity = False"
| "jsless Infinity _ = False"
| "jsless (Num a) Infinity = True"

text \<open>\<open>x <= y\<close>, \<open>x > y\<close> and \<open>x >= y\<close>.\<close>

definition jsle :: "jsnum \<Rightarrow> jsnum \<Rightarrow> bool" where
  "jsle x y = (x \<noteq> NaN \<and> y \<noteq> NaN \<and> \<not> jsless y x)"

definition jsgreater :: "jsnum \<Rightarrow> jsnum \<Rightarrow> bool" where
  "jsgreater x y = jsless y x"

definition jsge :: "jsnum \<Rightarrow> jsnum \<Rightarrow> bool" where
  "jsge x y = jsle y x"

definition Math_max :: "jsnum \<Rightarrow> jsnum \<Rightarrow> jsnum" where
  "Math_max x y = (if x = NaN \<or> y = NaN then NaN else if jsless x y then y else x)"

definition Math_min :: "jsnum \<Rightarrow> jsnum \<Rightarrow> jsnum" where
  "Math_min x y = (if x = NaN \<or> y = NaN then NaN else if jsless y x then y else x)"

text \<open>\<open>Math.round\<close>: the nearest integer, a tie going up.\<close>

fun Math_round :: "jsnum \<Rightarrow> jsnum" where
  "Math_round (Num a) = Num (of_int \<lfloor>a + 1 / 2\<rfloor>)"
| "Math_round x = x"

text \<open>A number that is neither \<open>NaN\<close> nor infinite.\<close>

fun isFinite :: "jsnum \<Rightarrow> bool" where
  "isFinite (Num a) = True"
| "isFinite _ = False"

subsection \<open>Numbers as text\<close>

definition digitChar :: "nat \<Rightarrow> char" where
  "digitChar d = char_of (48 + d)"

fun showNat :: "nat \<Rightarrow> string" where
  "showNat n = (if n < 10 then [digitChar n] else showNat (n div 10) @ [digitChar (n mod 10)])"

declare showNat.simps [simp del]

text \<open>The conversion of a Number to a string inside a template or a concatenation,
  for the integral values it is applied to here (the exponent notation that starts at
  \<open>10^21\<close> is out of reach).\<close>

fun toStringInt :: "jsnum \<Rightarrow> string" where
  "toStringInt (Num a) = (if a < 0 then ''-'' else []) @ showNat (nat \<lfloor>\<bar>a\<bar>\<rfloor>)"
| "toStringInt NaN = ''NaN''"
| "toStringInt Infinity = ''Infinity''"
| "toStringInt NegInfinity = ''-Infinity''"

text \<open>\<open>x.toFixed(2)\<close>: the integer \<open>n\<close> with \<open>n / 100\<close> nearest to \<open>x\<close>, the larger
  one at a tie, printed with two decimals (below \<open>10^21\<close>).\<close>

fun toFixed2 :: "jsnum \<Rightarrow> string" where
  "toFixed2 (Num a) =
     (let n = nat \<lfloor>\<bar>a\<bar> * 100 + 1 / 2\<rfloor>
      in (if a < 0 then ''-'' else []) @ showNat (n div 100) @ ''.'' @
         [digitChar (n mod 100 div 10), digitChar (n mod 10)])"
| "toFixed2 NaN = ''NaN''"
| "toFixed2 Infinity = ''Infinity''"
| "toFixed2 NegInfinity = ''-Infinity''"

section \<open>keyword_density\<close>

text \<open>What an analyzer returns: the text of \<open>JSON.stringify({ error: msg })\<close>, or of
  \<open>JSON.stringify(result, null, 2)\<close>. The model keeps the object that is
  serialised.\<close>

datatype 'a outcome = ErrorObject string | Report 'a

definition STOP_WORDS :: "string set" where
  "STOP_WORDS = set
    [''a'', ''an'', ''the'', ''and'', ''or'', ''but'', ''in'', ''on'', ''at'', ''to'', ''for'',
     ''of'', ''with'', ''by'', ''from'', ''is'', ''are'', ''was'', ''were'', ''be'', ''been'',
     ''being'', ''have'', ''has'', ''had'', ''do'', ''does'', ''did'', ''will'', ''would'',
     ''could'', ''should'', ''may'', ''might'', ''shall'', ''can'', ''it'', ''its'',
     ''this'', ''that'', ''these'', ''those'', ''i'', ''you'', ''he'', ''she'', ''we'',
     ''they'', ''me'', ''him'', ''her'', ''us'', ''them'', ''my'', ''your'', ''his'',
     ''our'', ''their'', ''what'', ''which'', ''who'', ''whom'', ''how'', ''when'',
     ''where'', ''why'', ''not'', ''no'', ''so'', ''if'', ''then'', ''than'', ''as'',
     ''up'', ''out'', ''about'', ''into'', ''over'', ''after'', ''also'', ''just'',
     ''more'', ''most'', ''very'', ''all'', ''each'', ''every'', ''both'', ''few'',
     ''some'', ''any'', ''other'', ''such'', ''only'', ''own'', ''same'', ''too'']"

text \<open>The class \<open>[a-z0-9\s'-]\<close>.\<close>

definition tokenChar :: "char \<Rightarrow> bool" where
  "tokenChar c = (isLower c \<or> isDigit c \<or> isSpace c \<or> c = CHR 0x27 \<or> c = CHR ''-'')"

definition tokenize :: "string \<Rightarrow> string list" where
  "tokenize text =
     filter (\<lambda>w. 1 < length w)
       (splitRuns isSpace (replaceOutside tokenChar (toLowerCase text)))"

text \<open>A \<open>Map<string, number>\<close>: its entries in insertion order.
  \<open>counts.set(k, (counts.get(k) ?? 0) + 1)\<close> changes the entry of a key that is
  present where it stands, and adds a new key at the end.\<close>

type_synonym counts = "(string \<times> nat) list"

fun increment :: "counts \<Rightarrow> string \<Rightarrow> counts" where
  "increment [] k = [(k, 1)]"
| "increment ((k', c) # m) k =
     (if k' = k then (k', c + 1) # m else (k', c) # increment m k)"

text \<open>The keys of a \<open>Map\<close>.\<close>

definition keys :: "counts \<Rightarrow> string set" where
  "keys m = fst ` set m"

definition getNgrams :: "string list \<Rightarrow> nat \<Rightarrow> counts" where
  "getNgrams words n =
     fold (\<lambda>i counts.
             let gram = joinSpace (take n (drop i words));
                 gramWords = splitSpace gram
             in if list_ex (\<lambda>w. w \<in> STOP_WORDS) gramWords then counts
                else increment counts gram)
          [0 ..< Suc (length words) - n] []"

text \<open>\<open>((count / total) * 100).toFixed(2) + "%"\<close>: the number, and its text.\<close>

definition densityValue :: "nat \<Rightarrow> nat \<Rightarrow> jsnum" where
  "densityValue c tot = jsmul (jsdiv (ofNat c) (ofNat tot)) (Num 100)"

definition percent :: "nat \<Rightarrow> nat \<Rightarrow> string" where
  "percent c tot = toFixed2 (densityValue c tot) @ ''%''"

text \<open>An entry of a report: \<open>label\<close> is the field that the JSON text calls
  \<open>word\<close>, \<open>phrase\<close> or \<open>keyword\<close>.\<close>

record counted =
  label :: string
  count :: nat
  density :: string

text \<open>\<open>Array.prototype.sort\<close> is stable, and so is \<open>sort_key\<close>: entries of equal
  count keep their insertion order.\<close>

definition topN :: "counts \<Rightarrow> nat \<Rightarrow> nat \<Rightarrow> counted list" where
  "topN counts n tot =
     map (\<lambda>(k, c). \<lparr>label = k, count = c, density = percent c tot\<rparr>)
       (take n (sort_key (\<lambda>(k, c). - int c) counts))"

record KeywordResult =
  totalWords :: nat
  uniqueWords :: nat
  targetKeyword :: "counted option"
  topSingleWords :: "counted list"
  topBigrams :: "counted list"
  topTrigrams :: "counted list"

text \<open>The loop
  \<^verbatim>\<open>while ((idx = joined.indexOf(target, idx)) !== -1) { count++; idx += target.length; }\<close>
  It would not end on an empty \<open>target\<close>, so its result is an option: \<open>None\<close> is a
  loop that never returns.\<close>

partial_function (option) phraseLoop :: "string \<Rightarrow> string \<Rightarrow> nat \<Rightarrow> nat \<Rightarrow> nat option" where
  "phraseLoop joined target idx cnt =
     (case indexOf joined target idx of
        None \<Rightarrow> Some cnt
      | Some i \<Rightarrow> phraseLoop joined target (i + length target) (cnt + 1))"

declare phraseLoop.simps [code]

text \<open>The loop of \<open>keywordDensity\<close> that fills \<open>wordCounts\<close>.\<close>

definition wordFrequency :: "string list \<Rightarrow> counts" where
  "wordFrequency words =
     fold (\<lambda>w wordCounts. if w \<notin> STOP_WORDS then increment wordCounts w else wordCounts)
       words []"

text \<open>The count of the target in \<open>keywordDensity\<close>, from \<open>targetWords\<close> on:
  \<open>wordCounts.get(target) ?? 0\<close> for one target word, the loop otherwise.\<close>

definition targetCount :: "counts \<Rightarrow> string list \<Rightarrow> string \<Rightarrow> nat option" where
  "targetCount wordCounts words target =
     (let targetWords = splitRuns isSpace target
      in if length targetWords = 1
         then Some (case map_of wordCounts target of None \<Rightarrow> 0 | Some c \<Rightarrow> c)
         else phraseLoop (joinSpace words) target 0 0)"

text \<open>\<open>keywordDensity(text, targetKeyword?)\<close>. The outer option is \<open>None\<close> when the
  call does not return; \<open>keyword\<close> is the parameter \<open>targetKeyword\<close>, \<open>None\<close> for an
  argument left out.\<close>

definition keywordDensity :: "string \<Rightarrow> string option \<Rightarrow> KeywordResult outcome option" where
  "keywordDensity text keyword =
     (let words = tokenize text;
          totalWords = length words
      in if totalWords = 0
         then Some (ErrorObject ''No words found in the provided text.'')
         else
           let uniqueWords = card (set words);
               wordCounts = wordFrequency words;
               bigrams = getNgrams words 2;
               trigrams = getNgrams words 3;
               targetResult =
                 (case keyword of
                    None \<Rightarrow> Some None
                  | Some kw \<Rightarrow>
                      if kw = [] then Some None
                      else map_option
                             (\<lambda>c. Some \<lparr>label = kw, count = c, density = percent c totalWords\<rparr>)
                             (targetCount wordCounts words (trim (toLowerCase kw))))
           in map_option
                (\<lambda>target. Report
                   \<lparr>totalWords = totalWords,
                    uniqueWords = uniqueWords,
                    targetKeyword = target,
                    topSingleWords = topN wordCounts 15 totalWords,
                    topBigrams = topN bigrams 10 totalWords,
                    topTrigrams = topN trigrams 10 totalWords\<rparr>)
                targetResult)"

text \<open>The \<open>count\<close> field of \<open>targetKeyword\<close> in what a call returns, when it returns
  a report with a target.\<close>

definition reportedTargetCount :: "KeywordResult outcome option \<Rightarrow> nat option" where
  "reportedTargetCount out =
     (case out of
        Some (Report r) \<Rightarrow> map_option count (targetKeyword r)
      | _ \<Rightarrow> None)"

subsection \<open>Two ways of counting a phrase\<close>

text \<open>The number of all occurrences of \<open>t\<close> in \<open>s\<close>, overlapping ones included: the
  positions where \<open>t\<close> starts.\<close>

definition occurrences :: "string \<Rightarrow> string \<Rightarrow> nat" where
  "occurrences t s = length (filter (\<lambda>k. take (length t) (drop k s) = t) [0 ..< Suc (length s)])"

text \<open>The number of occurrences of a non-empty \<open>t\<close> met by reading \<open>s\<close> from left to
  right, where reading resumes behind an occurrence once it is counted: occurrences
  that overlap a counted one are passed over.\<close>

fun scanCount :: "string \<Rightarrow> string \<Rightarrow> nat" where
  "scanCount t [] = 0"
| "scanCount t (c # cs) =
     (if t \<noteq> [] \<and> prefix t (c # cs) then Suc (scanCount t (drop (length t - 1) cs))
      else scanCount t cs)"

text \<open>The report for the text \<open>the cat sat on the mat. the cat ran.\<close> with the
  target \<open>cat\<close>.\<close>

definition catReport :: KeywordResult where
  "catReport =
     \<lparr>totalWords = 9, uniqueWords = 6,
      targetKeyword = Some \<lparr>label = ''cat'', count = 2, density = ''22.22%''\<rparr>,
      topSingleWords =
        [\<lparr>label = ''cat'', count = 2, density = ''22.22%''\<rparr>,
         \<lparr>label = ''sat'', count = 1, density = ''11.11%''\<rparr>,
         \<lparr>label = ''mat'', count = 1, density = ''11.11%''\<rparr>,
         \<lparr>label = ''ran'', count = 1, density = ''11.11%''\<rparr>],
      topBigrams =
        [\<lparr>label = ''cat sat'', count = 1, density = ''11.11%''\<rparr>,
         \<lparr>label = ''cat ran'', count = 1, density = ''11.11%''\<rparr>],
      topTrigrams = []\<rparr>"

section \<open>readability\<close>

text \<open>\<open>"aeiouy".includes(c)\<close> for a character \<open>c\<close>.\<close>

definition vowel :: "char \<Rightarrow> bool" where
  "vowel c = (c \<in> set ''aeiouy'')"

text \<open>\<open>s.endsWith(t)\<close>.\<close>

definition endsWith :: "string \<Rightarrow> string \<Rightarrow> bool" where
  "endsWith s t = (length t \<le> length s \<and> drop (length s - length t) s = t)"

text \<open>The loop of \<open>countSyllables\<close> over the characters of the word, on the pair of
  \<open>count\<close> and \<open>prevVowel\<close>.\<close>

definition vowelGroups :: "string \<Rightarrow> nat" where
  "vowelGroups word =
     fst (fold (\<lambda>c (cnt, prevVowel).
                  let isVowel = vowel c
                  in (if isVowel \<and> \<not> prevVowel then cnt + 1 else cnt, isVowel))
               word (0, False))"

definition countSyllables :: "string \<Rightarrow> nat" where
  "countSyllables w =
     (let word = filter isLower (toLowerCase w)
      in if length word \<le> 3 then 1
         else
           let cnt = vowelGroups word;
               cnt = (if endsWith word ''e'' \<and> 1 < cnt then cnt - 1 else cnt);
               cnt = (if endsWith word ''le'' \<and> 2 < length word
                         \<and> \<not> vowel (word ! (length word - 3))
                      then cnt + 1 else cnt);
               cnt = (if cnt = 0 then 1 else cnt)
           in cnt)"

text \<open>The class \<open>[.!?]\<close>.\<close>

definition sentenceEnd :: "char \<Rightarrow> bool" where
  "sentenceEnd c = (c \<in> set ''.!?'')"

definition splitSentences :: "string \<Rightarrow> string list" where
  "splitSentences text =
     filter (\<lambda>s. 0 < length s) (map trim (splitRuns sentenceEnd text))"

text \<open>The class \<open>[a-zA-Z0-9\s'-]\<close>.\<close>

definition wordChar :: "char \<Rightarrow> bool" where
  "wordChar c =
     (isLower c \<or> isUpper c \<or> isDigit c \<or> isSpace c \<or> c = CHR 0x27 \<or> c = CHR ''-'')"

definition splitWords :: "string \<Rightarrow> string list" where
  "splitWords text =
     filter (\<lambda>w. 0 < length w) (splitRuns isSpace (replaceOutside wordChar text))"

text \<open>\<open>text.split(/\n\s*\n/)\<close>. A separator starts at a line feed that has another
  line feed in the run of white space behind it, and, \<open>\s*\<close> being greedy, it ends
  with the last line feed of that run.\<close>

definition afterLastLF :: "string \<Rightarrow> string" where
  "afterLastLF run = rev (takeWhile (\<lambda>d. d \<noteq> CHR 0x0A) (rev run))"

function splitBlankLines :: "string \<Rightarrow> string list" where
  "splitBlankLines [] = [[]]"
| "splitBlankLines (c # cs) =
     (if c = CHR 0x0A \<and> CHR 0x0A \<in> set (takeWhile isSpace cs)
      then [] # splitBlankLines (afterLastLF (takeWhile isSpace cs) @ dropWhile isSpace cs)
      else (case splitBlankLines cs of
              [] \<Rightarrow> [[c]]
            | p # ps \<Rightarrow> (c # p) # ps))"
  by pat_completeness auto
termination
proof (relation "measure length")
  fix c :: char and cs :: string
  have "length (afterLastLF (takeWhile isSpace cs)) \<le> length (takeWhile isSpace cs)"
    unfolding afterLastLF_def length_rev
    using length_takeWhile_le [of _ "rev (takeWhile isSpace cs)"] by simp
  moreover have "length (takeWhile isSpace cs) + length (dropWhile isSpace cs) = length cs"
    by (metis length_append takeWhile_dropWhile_id)
  ultimately show "(afterLastLF (takeWhile isSpace cs) @ dropWhile isSpace cs, c # cs) \<in> measure length"
    by simp
qed simp_all

definition splitParagraphs :: "string \<Rightarrow> string list" where
  "splitParagraphs text = filter (\<lambda>p. 0 < length (trim p)) (splitBlankLines text)"

definition interpretFleschEase :: "jsnum \<Rightarrow> string" where
  "interpretFleschEase score =
     (if jsge score (Num 90) then ''Very Easy (5th grade)''
      else if jsge score (Num 80) then ''Easy (6th grade)''
      else if jsge score (Num 70) then ''Fairly Easy (7th grade)''
      else if jsge score (Num 60) then ''Standard (8th-9th grade)''
      else if jsge score (Num 50) then ''Fairly Difficult (10th-12th grade)''
      else if jsge score (Num 30) then ''Difficult (college level)''
      else ''Very Difficult (graduate level)'')"

definition interpretGradeLevel :: "jsnum \<Rightarrow> string" where
  "interpretGradeLevel grade =
     (if jsle grade (Num 5) then ''Elementary school level''
      else if jsle grade (Num 8) then ''Middle school level''
      else if jsle grade (Num 12) then ''High school level''
      else if jsle grade (Num 16) then ''College level''
      else ''Graduate level'')"

text \<open>A score with its band; \<open>interpretationText\<close> is the field \<open>interpretation\<close>.\<close>

record Scored =
  score :: jsnum
  interpretationText :: string

record ReadabilityStats =
  wordCount :: nat
  sentenceCount :: nat
  syllableCount :: nat
  avgWordsPerSentence :: jsnum
  avgSyllablesPerWord :: jsnum
  readingTimeMinutes :: jsnum
  paragraphCount :: nat

record ReadabilityResult =
  fleschReadingEase :: Scored
  fleschKincaidGrade :: Scored
  stats :: ReadabilityStats
  tips :: "string list"

definition tooShort :: string where
  "tooShort = ''Text too short for meaningful analysis. Provide at least 10 words.''"

definition readability :: "string \<Rightarrow> ReadabilityResult outcome" where
  "readability text =
     (let sentences = splitSentences text;
          words = splitWords text;
          paragraphs = splitParagraphs text;
          wordCount = length words;
          sentenceCount = max (length sentences) 1;
          syllableCount = fold (\<lambda>w sum. sum + countSyllables w) words 0
      in if wordCount < 10 then ErrorObject tooShort
         else
           let avgWordsPerSentence = jsdiv (ofNat wordCount) (ofNat sentenceCount);
               avgSyllablesPerWord = jsdiv (ofNat syllableCount) (ofNat wordCount);
               fleschEase =
                 jssub (jssub (lit 206.835) (jsmul (lit 1.015) avgWordsPerSentence))
                       (jsmul (lit 84.6) avgSyllablesPerWord);
               clampedEase =
                 Math_max (Num 0)
                   (Math_min (Num 100) (jsdiv (Math_round (jsmul fleschEase (Num 10))) (Num 10)));
               fkGrade =
                 jssub (jsadd (jsmul (lit 0.39) avgWordsPerSentence)
                              (jsmul (lit 11.8) avgSyllablesPerWord))
                       (lit 15.59);
               clampedGrade =
                 Math_max (Num 0) (jsdiv (Math_round (jsmul fkGrade (Num 10))) (Num 10));
               readingTimeMinutes =
                 jsdiv (Math_round (jsmul (jsdiv (ofNat wordCount) (Num 238)) (Num 10))) (Num 10);
               tips =
                 (if jsgreater avgWordsPerSentence (Num 25)
                  then [''Sentences are long (avg '' @ toStringInt (Math_round avgWordsPerSentence)
                        @ '' words). Break them up for better readability.'']
                  else [])
                 @ (if jsgreater avgSyllablesPerWord (lit 1.7)
                    then [''Many complex words. Use simpler alternatives where possible.'']
                    else [])
                 @ (if jsless clampedEase (Num 50)
                    then [''Text is difficult to read. Aim for a Flesch score of 60+ for general audiences.'']
                    else [])
                 @ (if length paragraphs = 1 \<and> 100 < wordCount
                    then [''Single large paragraph. Break into smaller paragraphs for better scannability.'']
                    else [])
           in Report
                \<lparr>fleschReadingEase =
                   \<lparr>score = clampedEase, interpretationText = interpretFleschEase clampedEase\<rparr>,
                 fleschKincaidGrade =
                   \<lparr>score = clampedGrade, interpretationText = interpretGradeLevel clampedGrade\<rparr>,
                 stats =
                   \<lparr>wordCount = wordCount,
                    sentenceCount = sentenceCount,
                    syllableCount = syllableCount,
                    avgWordsPerSentence =
                      jsdiv (Math_round (jsmul avgWordsPerSentence (Num 10))) (Num 10),
                    avgSyllablesPerWord =
                      jsdiv (Math_round (jsmul avgSyllablesPerWord (Num 100))) (Num 100),
                    readingTimeMinutes = readingTimeMinutes,
                    paragraphCount = length paragraphs\<rparr>,
                 tips = tips\<rparr>)"

text \<open>The report for \<open>The cat sat on a mat. The dog ran off.\<close>: ten words of one
  syllable in two sentences.\<close>

definition tenWordReport :: ReadabilityResult where
  "tenWordReport =
     \<lparr>fleschReadingEase = \<lparr>score = Num 100, interpretationText = ''Very Easy (5th grade)''\<rparr>,
      fleschKincaidGrade = \<lparr>score = Num 0, interpretationText = ''Elementary school level''\<rparr>,
      stats =
        \<lparr>wordCount = 10, sentenceCount = 2, syllableCount = 10,
         avgWordsPerSentence = Num 5, avgSyllablesPerWord = Num 1,
         readingTimeMinutes = Num 0, paragraphCount = 1\<rparr>,
      tips = []\<rparr>"

section \<open>heading_structure\<close>

text \<open>\<open>s.includes(t)\<close>.\<close>

definition strIncludes :: "string \<Rightarrow> string \<Rightarrow> bool" where
  "strIncludes s t = (indexOf s t 0 \<noteq> None)"

text \<open>\<open>xs.join("\n")\<close>.\<close>

fun joinLines :: "string list \<Rightarrow> string" where
  "joinLines [] = []"
| "joinLines [l] = l"
| "joinLines (l # ls) = l @ CHR 0x0A # joinLines ls"

text \<open>A heading as \<open>extractHeadings\<close> returns it: \<open>level\<close> is one of 1 to 6, the digit
  of the tag, and \<open>headingText\<close> is the field \<open>text\<close>.\<close>

record HeadingInfo =
  level :: nat
  headingText :: string

text \<open>The template \<open>H${level}\<close>.\<close>

definition H :: "nat \<Rightarrow> string" where
  "H l = ''H'' @ showNat l"

text \<open>The table \<open>hierarchy\<close>, an object with the keys \<open>H1\<close> to \<open>H6\<close>, and the statement
  \<open>hierarchy[`H${h.level}`]++\<close>.\<close>

type_synonym hierarchy = "(string \<times> nat) list"

definition bump :: "hierarchy \<Rightarrow> string \<Rightarrow> hierarchy" where
  "bump hier key = map (\<lambda>(k, n). if k = key then (k, n + 1) else (k, n)) hier"

definition countLevels :: "HeadingInfo list \<Rightarrow> hierarchy" where
  "countLevels headings =
     fold (\<lambda>h hier. bump hier (H (level h))) headings
       [(''H1'', 0), (''H2'', 0), (''H3'', 0), (''H4'', 0), (''H5'', 0), (''H6'', 0)]"

text \<open>\<open>hierarchy.H1\<close>.\<close>

definition H1 :: "hierarchy \<Rightarrow> nat" where
  "H1 hier = (case map_of hier ''H1'' of None \<Rightarrow> 0 | Some n \<Rightarrow> n)"

text \<open>The messages. The arrow of the skipped-level message is the character U+2192,
  beyond the code units of the model; it stands here as the three bytes of its UTF-8
  form, and no test of the program reads it.\<close>

definition missingH1 :: string where
  "missingH1 = ''Missing H1 tag. Every page should have exactly one H1.''"

definition multipleH1 :: "nat \<Rightarrow> string" where
  "multipleH1 n = ''Multiple H1 tags ('' @ showNat n @ ''). Use only one H1 per page.''"

definition skippedLevel :: "nat \<Rightarrow> nat \<Rightarrow> string \<Rightarrow> string" where
  "skippedLevel prev cur prevText =
     ''Skipped heading level: '' @ H prev @ [CHR 0x20, CHR 0xE2, CHR 0x86, CHR 0x92, CHR 0x20]
       @ H cur @ '' (after '' @ [CHR 0x22] @ take 40 prevText @ [CHR 0x22]
       @ ''). Don't skip levels.''"

definition firstNotH1 :: "nat \<Rightarrow> string" where
  "firstNotH1 l = ''First heading is '' @ H l @ '', not H1. Start with H1.''"

definition tooLongHeading :: "HeadingInfo \<Rightarrow> string" where
  "tooLongHeading h =
     H (level h) @ '' '' @ [CHR 0x22] @ take 40 (headingText h) @ ''...'' @ [CHR 0x22]
       @ '' is '' @ showNat (length (headingText h)) @ '' chars. Keep headings under 70 chars.''"

definition noHeadings :: string where
  "noHeadings = ''No headings found on the page. Add headings to structure your content.''"

record HeadingAnalysis =
  url :: string
  headingCount :: nat
  headings :: "HeadingInfo list"
  hierarchy :: hierarchy
  issues :: "string list"
  outline :: string
  score :: string

text \<open>\<open>headingStructure(url)\<close>, from the headings that \<open>extractHeadings\<close> finds in
  the fetched page.\<close>

definition headingStructure :: "string \<Rightarrow> HeadingInfo list \<Rightarrow> HeadingAnalysis" where
  "headingStructure pageUrl hs =
     (let hier = countLevels hs;
          h1Issues =
            (if H1 hier = 0 then [missingH1]
             else if 1 < H1 hier then [multipleH1 (H1 hier)]
             else []);
          usedLevels = map level hs;
          skipIssues =
            concat (map (\<lambda>i. if usedLevels ! (i - 1) + 1 < usedLevels ! i
                               then [skippedLevel (usedLevels ! (i - 1)) (usedLevels ! i)
                                       (headingText (hs ! (i - 1)))]
                               else [])
                        [1 ..< length usedLevels]);
          firstIssues =
            (if 0 < length hs \<and> level (hs ! 0) \<noteq> 1 then [firstNotH1 (level (hs ! 0))] else []);
          longIssues =
            concat (map (\<lambda>h. if 70 < length (headingText h) then [tooLongHeading h] else []) hs);
          emptyIssues = (if length hs = 0 then [noHeadings] else []);
          allIssues = h1Issues @ skipIssues @ firstIssues @ longIssues @ emptyIssues;
          lines = joinLines
            (map (\<lambda>h. concat (replicate (level h - 1) ''  '') @ H (level h) @ '': '' @ headingText h)
                 hs);
          totalChecks = 4;
          passed = totalChecks
            - (if H1 hier = 0 then 1 else 0)
            - (if 1 < H1 hier then 1 else 0)
            - (if list_ex (\<lambda>i. strIncludes i ''Skipped'') allIssues then 1 else 0)
            - (if 0 < length hs \<and> level (hs ! 0) \<noteq> 1 then 1 else 0)
      in \<lparr>url = pageUrl,
          headingCount = length hs,
          headings = hs,
          hierarchy = hier,
          issues = allIssues,
          outline = (if lines = [] then ''(no headings)'' else lines),
          score = showNat passed @ ''/'' @ showNat totalChecks\<rparr>)"

text \<open>A skipped-level issue: a message that starts as \<open>skippedLevel\<close> does.\<close>

definition isSkippedLevelIssue :: "string \<Rightarrow> bool" where
  "isSkippedLevelIssue i = prefix ''Skipped heading level: '' i"

section \<open>Regular expressions of the HTML utilities\<close>

text \<open>
  The patterns of the HTML utilities are sequences of four kinds of items: one
  character of a class, a greedy or a lazy repetition of a class, and an optional
  character. \<open>matchSeq\<close> matches such a sequence at the head of a string the way a
  backtracking matcher does: a greedy repetition tries its longest run first and
  gives characters back one by one, a lazy one starts empty and takes one more
  character at a time. It returns the text that each item matched and the rest of
  the string, so that the text of a capture group is the text of its items.
\<close>

datatype item =
    One "char \<Rightarrow> bool"
  | Star "char \<Rightarrow> bool"
  | Lazy "char \<Rightarrow> bool"
  | Opt "char \<Rightarrow> bool"

fun matchSeq :: "item list \<Rightarrow> string \<Rightarrow> (string list \<times> string) option"
  and tryLengths :: "item list \<Rightarrow> string \<Rightarrow> nat list \<Rightarrow> (string list \<times> string) option"
where
  "matchSeq [] s = Some ([], s)"
| "matchSeq (One p # r) s =
     (case s of
        [] \<Rightarrow> None
      | c # cs \<Rightarrow>
          if p c then map_option (\<lambda>(segs, rest). ([c] # segs, rest)) (matchSeq r cs)
          else None)"
| "matchSeq (Star p # r) s = tryLengths r s (rev [0 ..< Suc (length (takeWhile p s))])"
| "matchSeq (Lazy p # r) s = tryLengths r s [0 ..< Suc (length (takeWhile p s))]"
| "matchSeq (Opt p # r) s =
     tryLengths r s (rev [0 ..< Suc (length (takeWhile p (take 1 s)))])"
| "tryLengths r s [] = None"
| "tryLengths r s (k # ks) =
     (case matchSeq r (drop k s) of
        Some (segs, rest) \<Rightarrow> Some (take k s # segs, rest)
      | None \<Rightarrow> tryLengths r s ks)"

text \<open>The first match at or after the position \<open>start\<close>: the position, the texts of
  the items and the rest of the string.\<close>

definition search :: "item list \<Rightarrow> string \<Rightarrow> nat \<Rightarrow> (nat \<times> string list \<times> string) option" where
  "search items s start =
     (case find (\<lambda>i. matchSeq items (drop i s) \<noteq> None) [start ..< Suc (length s)] of
        None \<Rightarrow> None
      | Some i \<Rightarrow> map_option (\<lambda>(segs, rest). (i, segs, rest)) (matchSeq items (drop i s)))"

text \<open>A character of a pattern with the flag \<open>i\<close>: a letter matches in both cases.\<close>

definition ci :: "char \<Rightarrow> char \<Rightarrow> bool" where
  "ci c x = (x = c \<or> (isLower c \<and> code x + 32 = code c) \<or> (isUpper c \<and> code x = code c + 32))"

definition str :: "string \<Rightarrow> item list" where
  "str s = map (\<lambda>c. One (ci c)) s"

definition anyChar :: "char \<Rightarrow> bool" where
  "anyChar c = True"

definition notGt :: "char \<Rightarrow> bool" where
  "notGt c = (c \<noteq> CHR ''>'')"

text \<open>The classes \<open>["']\<close> and \<open>[^"']\<close>.\<close>

definition quote :: "char \<Rightarrow> bool" where
  "quote c = (c = CHR 0x22 \<or> c = CHR 0x27)"

definition notQuote :: "char \<Rightarrow> bool" where
  "notQuote c = (\<not> quote c)"

section \<open>HTML utilities\<close>

text \<open>\<open>getAttr(attrs, name)\<close>, with the pattern \<open>name=["']([^"']*)["']\<close> and the flag
  \<open>i\<close>; the capture group is the item behind the name, the equals sign and the
  quote.\<close>

definition getAttr :: "string \<Rightarrow> string \<Rightarrow> string option" where
  "getAttr attrs name =
     (case search (str name @ str ''='' @ [One quote, Star notQuote, One quote]) attrs 0 of
        None \<Rightarrow> None
      | Some (i, segs, rest) \<Rightarrow> Some (segs ! (length name + 2)))"

record MetaTag =
  property :: "string option"
  name :: "string option"
  content :: string

text \<open>The pattern \<open><meta\s+([^>]*?)\/?>\<close> with the flags \<open>g\<close> and \<open>i\<close>; the capture
  group is item 7.\<close>

definition metaPattern :: "item list" where
  "metaPattern =
     str ''<meta'' @ [One isSpace, Star isSpace, Lazy notGt, Opt (\<lambda>c. c = CHR ''/''), One (\<lambda>c. c = CHR ''>'')]"

text \<open>The body of the loop of \<open>extractMetaTags\<close> for one match.\<close>

definition metaTagOf :: "string \<Rightarrow> MetaTag list" where
  "metaTagOf attrs =
     (let prop = getAttr attrs ''property'';
          nm = getAttr attrs ''name'';
          cont = (case getAttr attrs ''content'' of None \<Rightarrow> [] | Some c \<Rightarrow> c)
      in if (prop \<noteq> None \<and> prop \<noteq> Some []) \<or> (nm \<noteq> None \<and> nm \<noteq> Some [])
         then [\<lparr>property = prop, name = nm, content = cont\<rparr>]
         else [])"

text \<open>The loop \<open>while ((match = regex.exec(html)) !== null)\<close>: every call looks for
  the first match at or after \<open>lastIndex\<close> and moves \<open>lastIndex\<close> behind it. The
  positions are visited in order, those before \<open>lastIndex\<close> are passed over.\<close>

definition extractMetaTags :: "string \<Rightarrow> MetaTag list" where
  "extractMetaTags html =
     snd (fold (\<lambda>i (lastIndex, tags).
                  if i < lastIndex then (lastIndex, tags)
                  else (case matchSeq metaPattern (drop i html) of
                          None \<Rightarrow> (lastIndex, tags)
                        | Some (segs, rest) \<Rightarrow>
                            (length html - length rest, tags @ metaTagOf (segs ! 7))))
               [0 ..< Suc (length html)] (0, []))"

text \<open>The pattern \<open><title[^>]*>([\s\S]*?)<\/title>\<close> with the flag \<open>i\<close>; the capture
  group is item 8.\<close>

definition titlePattern :: "item list" where
  "titlePattern =
     str ''<title'' @ [Star notGt, One (\<lambda>c. c = CHR ''>''), Lazy anyChar] @ str ''</title>''"

definition extractTitle :: "string \<Rightarrow> string option" where
  "extractTitle html =
     (case search titlePattern html 0 of
        None \<Rightarrow> None
      | Some (i, segs, rest) \<Rightarrow> Some (trim (segs ! 8)))"

text \<open>The two patterns of \<open>extractCanonical\<close>, with the flag \<open>i\<close>:
  \<open><link[^>]*rel=["']canonical["'][^>]*href=["']([^"']*)["'][^>]*\/?>\<close>, capture group
  item 28, and
  \<open><link[^>]*href=["']([^"']*)["'][^>]*rel=["']canonical["'][^>]*\/?>\<close>, capture group
  item 12.\<close>

definition relCanonical :: "item list" where
  "relCanonical = str ''rel='' @ [One quote] @ str ''canonical'' @ [One quote]"

definition hrefValue :: "item list" where
  "hrefValue = str ''href='' @ [One quote, Star notQuote, One quote]"

definition tagEnd :: "item list" where
  "tagEnd = [Star notGt, Opt (\<lambda>c. c = CHR ''/''), One (\<lambda>c. c = CHR ''>'')]"

definition extractCanonical :: "string \<Rightarrow> string option" where
  "extractCanonical html =
     (case search (str ''<link'' @ [Star notGt] @ relCanonical @ [Star notGt] @ hrefValue @ tagEnd)
             html 0 of
        Some (i, segs, rest) \<Rightarrow> Some (segs ! 28)
      | None \<Rightarrow>
          (case search (str ''<link'' @ [Star notGt] @ hrefValue @ [Star notGt] @ relCanonical @ tagEnd)
                  html 0 of
             Some (i, segs, rest) \<Rightarrow> Some (segs ! 12)
           | None \<Rightarrow> None))"

section \<open>meta_tags\<close>

text \<open>An object used as a table from strings to strings (\<open>Record<string, string>\<close>).
  The assignment \<open>obj[k] = v\<close> adds or replaces the entry of \<open>k\<close>; with the key
  \<open>__proto__\<close> and a string it changes nothing.\<close>

definition objSet :: "(string \<rightharpoonup> string) \<Rightarrow> string \<Rightarrow> string \<Rightarrow> (string \<rightharpoonup> string)" where
  "objSet obj k v = (if k = ''__proto__'' then obj else obj(k \<mapsto> v))"

text \<open>\<open>!v\<close> for a value that is a string, \<open>null\<close> or \<open>undefined\<close>.\<close>

definition falsy :: "string option \<Rightarrow> bool" where
  "falsy v = (v = None \<or> v = Some [])"

text \<open>\<open>v?.startsWith(p)\<close> as a condition.\<close>

definition startsWith :: "string option \<Rightarrow> string \<Rightarrow> bool" where
  "startsWith v p = (case v of None \<Rightarrow> False | Some s \<Rightarrow> prefix p s)"

text \<open>The three tables after the loop over the tags.\<close>

definition groupTags ::
  "MetaTag list \<Rightarrow> (string \<rightharpoonup> string) \<times> (string \<rightharpoonup> string) \<times> (string \<rightharpoonup> string)" where
  "groupTags tags =
     fold (\<lambda>tag (og, tw, ot).
             if startsWith (property tag) ''og:''
             then (case property tag of
                     Some p \<Rightarrow> (objSet og p (content tag), tw, ot)
                   | None \<Rightarrow> (og, tw, ot))
             else if startsWith (name tag) ''twitter:'' \<or> startsWith (property tag) ''twitter:''
             then (case name tag of
                     Some n \<Rightarrow> (og, objSet tw n (content tag), ot)
                   | None \<Rightarrow>
                       (case property tag of
                          Some p \<Rightarrow> (og, objSet tw p (content tag), ot)
                        | None \<Rightarrow> (og, tw, ot)))
             else if \<not> falsy (name tag) \<and> name tag \<noteq> Some ''description''
             then (case name tag of
                     Some n \<Rightarrow> (og, tw, objSet ot n (content tag))
                   | None \<Rightarrow> (og, tw, ot))
             else (og, tw, ot))
          tags (Map.empty, Map.empty, Map.empty)"

text \<open>The entries \<open>title\<close> and \<open>description\<close> of the report; \<open>tagValue\<close> and
  \<open>tagLength\<close> are the fields \<open>value\<close> and \<open>length\<close>.\<close>

record TagCheck =
  tagValue :: "string option"
  tagLength :: "nat option"
  ok :: bool
  tip :: "string option"

record MetaAnalysis =
  url :: string
  title :: TagCheck
  description :: TagCheck
  canonical :: "string option"
  openGraph :: "string \<rightharpoonup> string"
  twitter :: "string \<rightharpoonup> string"
  other :: "string \<rightharpoonup> string"
  issues :: "string list"
  score :: string

text \<open>\<open>n || null\<close> for a length.\<close>

definition orNull :: "nat \<Rightarrow> nat option" where
  "orNull n = (if n = 0 then None else Some n)"

text \<open>\<open>metaTags(url)\<close>, from the text of the fetched page.\<close>

definition metaTags :: "string \<Rightarrow> string \<Rightarrow> MetaAnalysis" where
  "metaTags pageUrl html =
     (let tags = extractMetaTags html;
          pageTitle = extractTitle html;
          canon = extractCanonical html;
          descTag = find (\<lambda>t. name t = Some ''description'') tags;
          desc = map_option content descTag;
          (og, tw, ot) = groupTags tags;
          titleLen = (case pageTitle of None \<Rightarrow> 0 | Some t \<Rightarrow> length t);
          titleIssues = (if falsy pageTitle then [''Missing <title> tag''] else []);
          titleOk = (\<not> falsy pageTitle);
          titleTip =
            (if falsy pageTitle then Some ''Add a unique, descriptive title (50-60 characters)''
             else if titleLen < 30 then Some ''Title is short. Aim for 50-60 characters for better CTR.''
             else if 60 < titleLen
             then Some ''Title may be truncated in SERPs. Keep under 60 characters.''
             else None);
          descLen = (case desc of None \<Rightarrow> 0 | Some d \<Rightarrow> length d);
          descIssues = (if falsy desc then [''Missing meta description''] else []);
          descOk = (\<not> falsy desc);
          descTip =
            (if falsy desc then Some ''Add a meta description (120-160 characters) to improve CTR.''
             else if descLen < 70 then Some ''Description is short. Aim for 120-160 characters.''
             else if 160 < descLen
             then Some ''Description may be truncated. Keep under 160 characters.''
             else None);
          ogIssues =
            (if falsy (og ''og:title'') then [''Missing og:title''] else [])
            @ (if falsy (og ''og:description'') then [''Missing og:description''] else [])
            @ (if falsy (og ''og:image'')
               then [''Missing og:image (no preview image for social shares)''] else [])
            @ (if falsy (og ''og:url'') then [''Missing og:url''] else []);
          twitterIssues = (if falsy (tw ''twitter:card'') then [''Missing twitter:card''] else []);
          canonicalIssues = (if falsy canon then [''No canonical URL set''] else []);
          allIssues = titleIssues @ descIssues @ ogIssues @ twitterIssues @ canonicalIssues;
          totalChecks = 8;
          passed = totalChecks - length allIssues
      in \<lparr>url = pageUrl,
          title = \<lparr>tagValue = pageTitle, tagLength = orNull titleLen, ok = titleOk, tip = titleTip\<rparr>,
          description = \<lparr>tagValue = desc, tagLength = orNull descLen, ok = descOk, tip = descTip\<rparr>,
          canonical = canon,
          openGraph = og,
          twitter = tw,
          other = ot,
          issues = allIssues,
          score = showNat passed @ ''/'' @ showNat totalChecks\<rparr>)"

section \<open>Outputs without NaN and Infinity\<close>

text \<open>An entry of a keyword report prints a number that is neither \<open>NaN\<close> nor
  infinite: its density is the text of a finite number, and none of the texts that
  \<open>toFixed\<close> gives for \<open>NaN\<close> and the infinities.\<close>

definition finiteEntry :: "nat \<Rightarrow> counted \<Rightarrow> bool" where
  "finiteEntry tot e =
     (isFinite (densityValue (count e) tot)
      \<and> density e = toFixed2 (densityValue (count e) tot) @ ''%''
      \<and> density e \<notin> {''NaN%'', ''Infinity%'', ''-Infinity%''})"

definition finiteKeywordResult :: "KeywordResult \<Rightarrow> bool" where
  "finiteKeywordResult r =
     (list_all (finiteEntry (totalWords r)) (topSingleWords r)
      \<and> list_all (finiteEntry (totalWords r)) (topBigrams r)
      \<and> list_all (finiteEntry (totalWords r)) (topTrigrams r)
      \<and> (case targetKeyword r of None \<Rightarrow> True | Some t \<Rightarrow> finiteEntry (totalWords r) t))"

text \<open>Every Number of a readability report is finite.\<close>

definition finiteReadabilityResult :: "ReadabilityResult \<Rightarrow> bool" where
  "finiteReadabilityResult r =
     (isFinite (Scored.score (fleschReadingEase r))
      \<and> isFinite (Scored.score (fleschKincaidGrade r))
      \<and> isFinite (avgWordsPerSentence (stats r))
      \<and> isFinite (avgSyllablesPerWord (stats r))
      \<and> isFinite (readingTimeMinutes (stats r)))"

section \<open>The number model rounds as binary64 does\<close>

lemma pow2_nonneg: "0 \<le> e \<Longrightarrow> pow2 e = 2 ^ nat e"
  by (simp add: pow2_def)

lemma pow2_neg: "e \<le> 0 \<Longrightarrow> pow2 e = 1 / 2 ^ nat (- e)"
  by (cases "e = 0") (simp_all add: pow2_def)

lemma exponent_bounds:
  assumes "0 < a"
  shows "pow2 (exponent a) \<le> a \<and> a < pow2 (exponent a + 1)"
proof (cases "1 \<le> a")
  case True
  let ?n = "\<lfloor>a\<rfloor>"
  let ?b = "bitlen ?n"
  from True have n: "0 < ?n" by simp
  from bitlen_bounds [OF n] have lo: "2 ^ nat (?b - 1) \<le> ?n" and hi: "?n < 2 ^ nat ?b" by simp_all
  from n have b: "1 \<le> ?b" using bitlen_nonneg [of ?n] bitlen_eq_zero_iff [of ?n] by linarith
  have e: "exponent a = ?b - 1" using True by (simp add: exponent_def)
  have "(2 :: rat) ^ nat (?b - 1) = of_int (2 ^ nat (?b - 1))" by simp
  also have "\<dots> \<le> of_int ?n" using lo by (simp only: of_int_le_iff)
  also have "\<dots> \<le> a" by simp
  finally have 1: "pow2 (exponent a) \<le> a" using b by (simp add: e pow2_nonneg)
  from hi have "?n + 1 \<le> 2 ^ nat ?b" by simp
  then have "of_int (?n + 1) \<le> (of_int (2 ^ nat ?b) :: rat)" by (simp only: of_int_le_iff)
  moreover have "a < of_int (?n + 1)" by linarith
  ultimately have "a < 2 ^ nat ?b" by simp
  then have 2: "a < pow2 (exponent a + 1)" using b by (simp add: e pow2_nonneg)
  from 1 2 show ?thesis ..
next
  case False
  let ?c = "- \<lfloor>- (1 / a)\<rfloor>"
  let ?m = "?c - 1"
  let ?b = "bitlen ?m"
  from False assms have inv: "1 < 1 / a" by simp
  have c: "?c = \<lceil>1 / a\<rceil>" by (simp add: ceiling_def)
  from inv have m: "0 < ?m" unfolding c by linarith
  from bitlen_bounds [OF m] have lo: "2 ^ nat (?b - 1) \<le> ?m" and hi: "?m < 2 ^ nat ?b" by simp_all
  from m have b: "1 \<le> ?b" using bitlen_nonneg [of ?m] bitlen_eq_zero_iff [of ?m] by linarith
  have e: "exponent a = - ?b" using False by (simp add: exponent_def)
  from hi have "?c \<le> 2 ^ nat ?b" by simp
  then have "of_int ?c \<le> (of_int (2 ^ nat ?b) :: rat)" by (simp only: of_int_le_iff)
  moreover have "1 / a \<le> of_int ?c" unfolding c by simp
  ultimately have "1 / a \<le> 2 ^ nat ?b" by simp
  then have "1 / 2 ^ nat ?b \<le> a" using assms by (simp add: field_simps)
  then have 1: "pow2 (exponent a) \<le> a" using b by (simp add: e pow2_neg)
  have "(2 :: rat) ^ nat (?b - 1) = of_int (2 ^ nat (?b - 1))" by simp
  also have "\<dots> \<le> of_int ?m" using lo by (simp only: of_int_le_iff)
  also have "\<dots> < 1 / a" unfolding c by linarith
  finally have "a < 1 / 2 ^ nat (?b - 1)" using assms by (simp add: field_simps)
  moreover have "nat (- (exponent a + 1)) = nat (?b - 1)" by (simp add: e)
  ultimately have 2: "a < pow2 (exponent a + 1)" using b by (simp add: e pow2_neg)
  from 1 2 show ?thesis ..
qed

lemma pow2_power_int: "pow2 e = power_int 2 e"
proof (cases "0 \<le> e")
  case True
  then show ?thesis by (simp add: pow2_def power_int_def)
next
  case False
  have "inverse (2 :: rat) ^ nat (- e) = 1 / 2 ^ nat (- e)"
    by (simp add: power_one_over)
  with False show ?thesis by (simp add: pow2_def power_int_def)
qed

lemma pow2_pos: "0 < pow2 e"
  by (simp add: pow2_power_int)

lemma pow2_add: "pow2 (a + b) = pow2 a * pow2 b"
  by (simp add: pow2_power_int power_int_add)

lemma roundHalfEven_near: "\<bar>of_int (roundHalfEven y) - y\<bar> \<le> 1 / 2"
proof -
  define f where "f = \<lfloor>y\<rfloor>"
  define r where "r = y - of_int f"
  have r: "0 \<le> r" "r < 1" unfolding r_def f_def by linarith+
  have y: "y = of_int f + r" by (simp add: r_def)
  have "roundHalfEven y = f \<and> r \<le> 1 / 2 \<or> roundHalfEven y = f + 1 \<and> 1 / 2 \<le> r"
    unfolding roundHalfEven_def Let_def f_def [symmetric] r_def [symmetric]
    by auto
  then show ?thesis
    using r unfolding y by (auto simp: abs_if)
qed

lemma roundHalfEven_ge: "of_int k \<le> y \<Longrightarrow> k \<le> roundHalfEven y"
proof -
  assume "of_int k \<le> y"
  then have "k \<le> \<lfloor>y\<rfloor>" by (simp add: le_floor_iff)
  then show ?thesis by (auto simp: roundHalfEven_def Let_def)
qed

lemma roundHalfEven_le: "y \<le> of_int k \<Longrightarrow> roundHalfEven y \<le> k"
proof -
  assume y: "y \<le> of_int k"
  show ?thesis
  proof (cases "y = of_int k")
    case True
    then show ?thesis by (simp add: roundHalfEven_def Let_def)
  next
    case False
    with y have "y < of_int k" by simp
    then have "\<lfloor>y\<rfloor> < k" by (simp add: floor_less_iff)
    then show ?thesis by (auto simp: roundHalfEven_def Let_def)
  qed
qed

text \<open>The result of \<open>fround\<close> is a significand of 53 bits times a power of two, and
  it is at most half a unit of the last place away from the exact value.\<close>

lemma fround_binary64:
  assumes "x \<noteq> 0"
  shows "\<exists>m. fround x = sgn x * of_int m * pow2 (exponent \<bar>x\<bar> - 52)
           \<and> 2 ^ 52 \<le> m \<and> m \<le> 2 ^ 53
           \<and> \<bar>fround x - x\<bar> \<le> pow2 (exponent \<bar>x\<bar> - 52) / 2"
proof -
  define a where "a = \<bar>x\<bar>"
  define u where "u = pow2 (exponent a - 52)"
  define m where "m = roundHalfEven (a / u)"
  from assms have a: "0 < a" by (simp add: a_def)
  have u: "0 < u" by (simp add: u_def pow2_pos)
  have "pow2 52 = 2 ^ 52" "pow2 53 = 2 ^ 53" by (simp_all add: pow2_def)
  then have p52: "pow2 (exponent a) = 2 ^ 52 * u" and p53: "pow2 (exponent a + 1) = 2 ^ 53 * u"
    using pow2_add [of 52 "exponent a - 52"] pow2_add [of 53 "exponent a - 52"]
    by (simp_all add: u_def add.commute)
  from exponent_bounds [OF a] have "2 ^ 52 * u \<le> a" "a \<le> 2 ^ 53 * u"
    unfolding p52 p53 by simp_all
  then have "2 ^ 52 \<le> a / u" "a / u \<le> 2 ^ 53"
    using u by (simp_all add: pos_le_divide_eq pos_divide_le_eq)
  then have lo: "of_int (2 ^ 52) \<le> a / u" and hi: "a / u \<le> of_int (2 ^ 53)" by simp_all
  have mb: "2 ^ 52 \<le> m" "m \<le> 2 ^ 53"
    unfolding m_def using roundHalfEven_ge [OF lo] roundHalfEven_le [OF hi] by simp_all
  have f: "fround x = sgn x * of_int m * u"
    using assms by (simp add: fround_def Let_def u_def m_def a_def)
  have "\<bar>of_int m - a / u\<bar> \<le> 1 / 2" unfolding m_def by (rule roundHalfEven_near)
  then have "\<bar>of_int m - a / u\<bar> * u \<le> 1 / 2 * u"
    using u by (simp only: mult_le_cancel_right_pos)
  moreover have "\<bar>of_int m - a / u\<bar> * u = \<bar>of_int m * u - a\<bar>"
  proof -
    have "\<bar>of_int m - a / u\<bar> * u = \<bar>(of_int m - a / u) * u\<bar>"
      using u by (simp add: abs_mult)
    also have "(of_int m - a / u) * u = of_int m * u - a"
      using u by (simp add: left_diff_distrib)
    finally show ?thesis .
  qed
  ultimately have near: "\<bar>of_int m * u - a\<bar> \<le> u / 2" by simp
  have "\<bar>fround x - x\<bar> = \<bar>of_int m * u - a\<bar>"
  proof (cases "0 < x")
    case True
    then show ?thesis by (simp add: f a_def)
  next
    case False
    with assms have "x < 0" by simp
    then have "fround x - x = - (of_int m * u - a)" by (simp add: f a_def)
    then show ?thesis by (simp only: abs_minus_cancel)
  qed
  with near f mb show ?thesis unfolding u_def a_def by auto
qed

section \<open>Properties of keyword_density\<close>

subsection \<open>Keys of the frequency maps\<close>

lemma keys_Nil: "keys [] = {}"
  by (simp add: keys_def)

lemma keys_increment: "keys (increment m k) = insert k (keys m)"
proof (induction m)
  case Nil
  then show ?case by (simp add: keys_def)
next
  case (Cons e m)
  obtain k' c where e: "e = (k', c)" by (cases e)
  show ?case
    using Cons by (cases "k' = k") (auto simp: e keys_def)
qed

lemma wordFrequency_fold_keys:
  "keys (fold (\<lambda>w wordCounts. if w \<notin> STOP_WORDS then increment wordCounts w else wordCounts) ws m)
     = keys m \<union> (set ws - STOP_WORDS)"
proof (induction ws arbitrary: m)
  case Nil
  then show ?case by simp
next
  case (Cons w ws)
  show ?case
    unfolding fold_simps Cons.IH by (auto simp: keys_increment)
qed

lemma wordFrequency_keys: "keys (wordFrequency words) = set words - STOP_WORDS"
  unfolding wordFrequency_def wordFrequency_fold_keys by (simp add: keys_Nil)

lemma topN_labels: "label ` set (topN counts n tot) \<subseteq> keys counts"
proof -
  have "set (take n (sort_key (\<lambda>(k, c). - int c) counts)) \<subseteq> set counts"
    using set_take_subset [of n "sort_key (\<lambda>(k, c). - int c) counts"] by simp
  then show ?thesis
    by (force simp: topN_def keys_def)
qed

subsection \<open>Tokens hold no space\<close>

lemma splitRuns_no_sep: "p \<in> set (splitRuns sep s) \<Longrightarrow> c \<in> set p \<Longrightarrow> \<not> sep c"
proof (induction sep s arbitrary: p rule: splitRuns.induct)
  case (1 sep)
  then show ?case by simp
next
  case (2 sep d ds)
  show ?case
  proof (cases "sep d")
    case True
    with 2 show ?thesis by auto
  next
    case False
    show ?thesis
    proof (cases "splitRuns sep ds")
      case Nil
      with False 2 show ?thesis by auto
    next
      case (Cons q qs)
      with False "2.prems" have "p = d # q \<or> p \<in> set qs" by auto
      then show ?thesis
      proof
        assume "p = d # q"
        with "2.prems" have "c = d \<or> c \<in> set q" by auto
        then show ?thesis
          using False "2.IH"(2) [of q] Cons by auto
      next
        assume "p \<in> set qs"
        then show ?thesis
          using False "2.IH"(2) [of p] Cons "2.prems" by auto
      qed
    qed
  qed
qed

lemma tokenize_no_space: "w \<in> set (tokenize text) \<Longrightarrow> CHR '' '' \<notin> set w"
  using splitRuns_no_sep [of w isSpace _ "CHR '' ''"]
  by (auto simp: tokenize_def isSpace_def code_def)

lemma splitSpace_no_space: "CHR '' '' \<notin> set w \<Longrightarrow> splitSpace (w @ CHR '' '' # s) = w # splitSpace s"
  by (induction w) auto

lemma splitSpace_word: "CHR '' '' \<notin> set w \<Longrightarrow> splitSpace w = [w]"
  by (induction w) auto

lemma splitSpace_joinSpace:
  "ws \<noteq> [] \<Longrightarrow> \<forall>w \<in> set ws. CHR '' '' \<notin> set w \<Longrightarrow> splitSpace (joinSpace ws) = ws"
  by (induction ws rule: joinSpace.induct) (auto simp: splitSpace_no_space splitSpace_word)

subsection \<open>Keys of the n-gram maps\<close>

lemma getNgrams_fold_keys:
  assumes "\<forall>k \<in> keys m. P k"
    and "\<forall>i \<in> set is. \<not> list_ex (\<lambda>w. w \<in> STOP_WORDS) (splitSpace (joinSpace (take n (drop i words))))
            \<longrightarrow> P (joinSpace (take n (drop i words)))"
  shows "\<forall>k \<in> keys (fold (\<lambda>i counts.
             let gram = joinSpace (take n (drop i words));
                 gramWords = splitSpace gram
             in if list_ex (\<lambda>w. w \<in> STOP_WORDS) gramWords then counts
                else increment counts gram) is m). P k"
  using assms
proof (induction "is" arbitrary: m)
  case Nil
  then show ?case by simp
next
  case (Cons i js)
  let ?gram = "joinSpace (take n (drop i words))"
  let ?m' = "if list_ex (\<lambda>w. w \<in> STOP_WORDS) (splitSpace ?gram) then m else increment m ?gram"
  have "\<forall>k \<in> keys ?m'. P k"
    using Cons.prems by (simp add: keys_increment)
  moreover have "\<forall>i \<in> set js. \<not> list_ex (\<lambda>w. w \<in> STOP_WORDS) (splitSpace (joinSpace (take n (drop i words))))
            \<longrightarrow> P (joinSpace (take n (drop i words)))"
    using Cons.prems(2) by simp
  ultimately show ?case
    using Cons.IH [of ?m'] by (simp add: Let_def)
qed

lemma getNgrams_keys:
  assumes "k \<in> keys (getNgrams words n)"
  shows "\<exists>i. i + n \<le> length words \<and> k = joinSpace (take n (drop i words))
           \<and> \<not> list_ex (\<lambda>w. w \<in> STOP_WORDS) (splitSpace k)"
proof -
  let ?P = "\<lambda>k. \<exists>i. i + n \<le> length words \<and> k = joinSpace (take n (drop i words))
           \<and> \<not> list_ex (\<lambda>w. w \<in> STOP_WORDS) (splitSpace k)"
  have "\<forall>k \<in> keys (getNgrams words n). ?P k"
    unfolding getNgrams_def
  proof (rule getNgrams_fold_keys)
    show "\<forall>k \<in> keys []. ?P k" by (simp add: keys_Nil)
    show "\<forall>i\<in>set [0..<Suc (length words) - n].
       \<not> list_ex (\<lambda>w. w \<in> STOP_WORDS) (splitSpace (joinSpace (take n (drop i words)))) \<longrightarrow>
       ?P (joinSpace (take n (drop i words)))"
    proof (intro ballI impI)
      fix i
      assume i: "i \<in> set [0..<Suc (length words) - n]"
        and ns: "\<not> list_ex (\<lambda>w. w \<in> STOP_WORDS) (splitSpace (joinSpace (take n (drop i words))))"
      from i have "i + n \<le> length words" by simp
      with ns show "?P (joinSpace (take n (drop i words)))"
        by (intro exI [of _ i] conjI refl)
    qed
  qed
  then show ?thesis using assms by (rule bspec)
qed

subsection \<open>The phrase loop\<close>

lemma find_upt_Some:
  "find P [a ..< b] = Some i \<longleftrightarrow> a \<le> i \<and> i < b \<and> P i \<and> (\<forall>j. a \<le> j \<and> j < i \<longrightarrow> \<not> P j)"
proof (induction "b - a" arbitrary: a)
  case 0
  then show ?case by simp
next
  case (Suc d)
  then have ab: "a < b" and d: "d = b - Suc a" by simp_all
  have upt: "[a ..< b] = a # [Suc a ..< b]" using ab by (simp add: upt_conv_Cons)
  show ?case
  proof (cases "P a")
    case True
    show ?thesis
    proof
      assume "find P [a ..< b] = Some i"
      then have "i = a" using True by (simp add: upt)
      then show "a \<le> i \<and> i < b \<and> P i \<and> (\<forall>j. a \<le> j \<and> j < i \<longrightarrow> \<not> P j)"
        using True ab by auto
    next
      assume r: "a \<le> i \<and> i < b \<and> P i \<and> (\<forall>j. a \<le> j \<and> j < i \<longrightarrow> \<not> P j)"
      have "i = a"
      proof (rule ccontr)
        assume "i \<noteq> a"
        with r have "a \<le> a \<and> a < i" by simp
        with r have "\<not> P a" by blast
        with True show False by simp
      qed
      then show "find P [a ..< b] = Some i" using True by (simp add: upt)
    qed
  next
    case False
    have "(Suc a \<le> i \<and> i < b \<and> P i \<and> (\<forall>j. Suc a \<le> j \<and> j < i \<longrightarrow> \<not> P j))
        \<longleftrightarrow> (a \<le> i \<and> i < b \<and> P i \<and> (\<forall>j. a \<le> j \<and> j < i \<longrightarrow> \<not> P j))"
      using False by (metis Suc_leI Suc_leD le_neq_implies_less)
    then show ?thesis
      using False Suc.hyps(1) [OF d] by (simp add: upt)
  qed
qed

lemma find_upt_None:
  "find P [a ..< b] = None \<longleftrightarrow> (\<forall>j. a \<le> j \<and> j < b \<longrightarrow> \<not> P j)"
  by (auto simp: find_None_iff)

lemma take_eq_length:
  assumes "take (length t) u = t"
  shows "length t \<le> length u"
proof -
  from assms have "length (take (length t) u) = length t" by simp
  then show ?thesis by simp
qed

lemma indexOf_Some:
  assumes "indexOf s t from = Some i"
  shows "min from (length s) \<le> i" and "i + length t \<le> length s"
    and "take (length t) (drop i s) = t"
    and "\<forall>j. min from (length s) \<le> j \<and> j < i \<longrightarrow> take (length t) (drop j s) \<noteq> t"
proof -
  from assms have *: "min from (length s) \<le> i \<and> i < Suc (length s)
      \<and> take (length t) (drop i s) = t
      \<and> (\<forall>j. min from (length s) \<le> j \<and> j < i \<longrightarrow> take (length t) (drop j s) \<noteq> t)"
    unfolding indexOf_def find_upt_Some .
  then show "min from (length s) \<le> i" and "take (length t) (drop i s) = t"
    and "\<forall>j. min from (length s) \<le> j \<and> j < i \<longrightarrow> take (length t) (drop j s) \<noteq> t"
    by blast+
  from * have "length t \<le> length (drop i s)" by (intro take_eq_length) simp
  moreover from * have "i \<le> length s" by simp
  ultimately show "i + length t \<le> length s" by simp
qed

lemma indexOf_None:
  assumes "indexOf s t from = None"
  shows "\<forall>j. min from (length s) \<le> j \<and> j \<le> length s \<longrightarrow> take (length t) (drop j s) \<noteq> t"
  using assms unfolding indexOf_def find_upt_None by (simp add: less_Suc_eq_le)

lemma phraseLoop_returns:
  assumes "target \<noteq> []"
  shows "\<exists>c. phraseLoop joined target idx cnt = Some c"
proof (induction "Suc (length joined) - idx" arbitrary: idx cnt rule: less_induct)
  case less
  show ?case
  proof (cases "indexOf joined target idx")
    case None
    then show ?thesis by (subst phraseLoop.simps) simp
  next
    case (Some i)
    from indexOf_Some(1,2) [OF Some] assms
    have "Suc (length joined) - (i + length target) < Suc (length joined) - idx"
      by (cases target) auto
    from less [OF this, of "cnt + 1"] Some show ?thesis
      by (subst phraseLoop.simps) simp
  qed
qed

lemma prefix_take_eq: "prefix t u \<longleftrightarrow> take (length t) u = t"
  by (metis append_eq_conv_conj prefix_def append_take_drop_id)

lemma scanCount_no_match:
  "\<forall>j \<le> length u. take (length t) (drop j u) \<noteq> t \<Longrightarrow> scanCount t u = 0"
proof (induction u)
  case Nil
  then show ?case by simp
next
  case (Cons c cs)
  from Cons.prems have "take (length t) (drop 0 (c # cs)) \<noteq> t" by blast
  then have np: "\<not> prefix t (c # cs)" by (simp add: prefix_take_eq)
  have "\<forall>j \<le> length cs. take (length t) (drop j cs) \<noteq> t"
  proof (intro allI impI)
    fix j assume "j \<le> length cs"
    then have "Suc j \<le> length (c # cs)" by simp
    with Cons.prems have "take (length t) (drop (Suc j) (c # cs)) \<noteq> t" by blast
    then show "take (length t) (drop j cs) \<noteq> t" by simp
  qed
  with Cons.IH np show ?case by simp
qed

lemma scanCount_skip:
  "\<forall>j < k. take (length t) (drop j u) \<noteq> t \<Longrightarrow> k \<le> length u \<Longrightarrow> scanCount t u = scanCount t (drop k u)"
proof (induction k arbitrary: u)
  case 0
  then show ?case by simp
next
  case (Suc k)
  then obtain c cs where u: "u = c # cs" by (cases u) auto
  from Suc.prems(1) have "take (length t) (drop 0 u) \<noteq> t" by blast
  then have np: "\<not> prefix t (c # cs)" by (simp add: prefix_take_eq u)
  have "\<forall>j < k. take (length t) (drop j cs) \<noteq> t"
  proof (intro allI impI)
    fix j assume "j < k"
    then have "Suc j < Suc k" by simp
    with Suc.prems(1) have "take (length t) (drop (Suc j) u) \<noteq> t" by blast
    then show "take (length t) (drop j cs) \<noteq> t" by (simp add: u)
  qed
  from Suc.IH [OF this] Suc.prems(2) np show ?case by (simp add: u)
qed

lemma scanCount_match:
  assumes "t \<noteq> []" "take (length t) u = t"
  shows "scanCount t u = Suc (scanCount t (drop (length t) u))"
proof -
  from assms obtain c cs where u: "u = c # cs" by (cases u) auto
  from assms obtain d ds where t: "t = d # ds" by (cases t) auto
  from assms(2) have "prefix t (c # cs)" by (simp add: prefix_take_eq u)
  then show ?thesis using assms(1) by (simp add: u t)
qed

lemma phraseLoop_scanCount:
  assumes "target \<noteq> []"
  shows "idx \<le> length joined \<Longrightarrow>
         phraseLoop joined target idx cnt = Some (cnt + scanCount target (drop idx joined))"
proof (induction "Suc (length joined) - idx" arbitrary: idx cnt rule: less_induct)
  case less
  let ?u = "drop idx joined"
  from less.prems have m: "min idx (length joined) = idx" by simp
  show ?case
  proof (cases "indexOf joined target idx")
    case None
    have "\<forall>j \<le> length ?u. take (length target) (drop j ?u) \<noteq> target"
    proof (intro allI impI)
      fix j assume "j \<le> length ?u"
      then have "idx \<le> idx + j \<and> idx + j \<le> length joined" using less.prems by simp
      with indexOf_None [OF None] m
      have "take (length target) (drop (idx + j) joined) \<noteq> target" by metis
      then show "take (length target) (drop j ?u) \<noteq> target" by (simp add: add.commute)
    qed
    then have "scanCount target ?u = 0" by (rule scanCount_no_match)
    with None show ?thesis by (subst phraseLoop.simps) simp
  next
    case (Some i)
    note io = indexOf_Some [OF Some]
    from io(1) m have ii: "idx \<le> i" by simp
    have "\<forall>j < i - idx. take (length target) (drop j ?u) \<noteq> target"
    proof (intro allI impI)
      fix j assume "j < i - idx"
      then have "idx \<le> idx + j \<and> idx + j < i" by simp
      with io(4) m have "take (length target) (drop (idx + j) joined) \<noteq> target" by metis
      then show "take (length target) (drop j ?u) \<noteq> target" by (simp add: add.commute)
    qed
    moreover have "i - idx \<le> length ?u" using io(2) ii by simp
    ultimately have "scanCount target ?u = scanCount target (drop (i - idx) ?u)"
      by (rule scanCount_skip)
    also have "drop (i - idx) ?u = drop i joined" using ii by simp
    also have "scanCount target (drop i joined) = Suc (scanCount target (drop (length target) (drop i joined)))"
      using assms io(3) by (rule scanCount_match)
    also have "drop (length target) (drop i joined) = drop (i + length target) joined"
      by (simp add: add.commute)
    finally have sc: "scanCount target ?u = Suc (scanCount target (drop (i + length target) joined))" .
    from io(1,2) assms m
    have dec: "Suc (length joined) - (i + length target) < Suc (length joined) - idx"
      by (cases target) auto
    from less.hyps [OF dec io(2), of "cnt + 1"] Some sc show ?thesis
      by (subst phraseLoop.simps) simp
  qed
qed

subsection \<open>keywordDensity returns\<close>

lemma targetCount_returns:
  "\<exists>c. targetCount wordCounts words target = Some c"
proof (cases "length (splitRuns isSpace target) = 1")
  case True
  then show ?thesis by (simp add: targetCount_def)
next
  case False
  then have "target \<noteq> []" by auto
  from phraseLoop_returns [OF this, of "joinSpace words" 0 0] False
  show ?thesis by (simp add: targetCount_def)
qed

lemma keywordDensity_returns: "\<exists>out. keywordDensity text keyword = Some out"
proof (cases "tokenize text = []")
  case True
  then show ?thesis by (simp add: keywordDensity_def)
next
  case False
  show ?thesis
  proof (cases keyword)
    case None
    with False show ?thesis by (simp add: keywordDensity_def Let_def)
  next
    case (Some kw)
    obtain c where "targetCount (wordFrequency (tokenize text)) (tokenize text) (trim (toLowerCase kw)) = Some c"
      using targetCount_returns by blast
    with False Some show ?thesis by (simp add: keywordDensity_def Let_def)
  qed
qed

lemma keywordDensity_Report:
  assumes "keywordDensity text keyword = Some (Report r)"
  shows "tokenize text \<noteq> []"
    and "totalWords r = length (tokenize text)"
    and "topSingleWords r = topN (wordFrequency (tokenize text)) 15 (length (tokenize text))"
    and "topBigrams r = topN (getNgrams (tokenize text) 2) 10 (length (tokenize text))"
    and "topTrigrams r = topN (getNgrams (tokenize text) 3) 10 (length (tokenize text))"
proof -
  show ne: "tokenize text \<noteq> []"
    using assms by (auto simp: keywordDensity_def)
  from assms ne obtain tr where
    "r = \<lparr>totalWords = length (tokenize text),
          uniqueWords = card (set (tokenize text)),
          targetKeyword = tr,
          topSingleWords = topN (wordFrequency (tokenize text)) 15 (length (tokenize text)),
          topBigrams = topN (getNgrams (tokenize text) 2) 10 (length (tokenize text)),
          topTrigrams = topN (getNgrams (tokenize text) 3) 10 (length (tokenize text))\<rparr>"
    unfolding keywordDensity_def Let_def by (auto simp: map_option_case split: option.splits)
  then show "totalWords r = length (tokenize text)"
    and "topSingleWords r = topN (wordFrequency (tokenize text)) 15 (length (tokenize text))"
    and "topBigrams r = topN (getNgrams (tokenize text) 2) 10 (length (tokenize text))"
    and "topTrigrams r = topN (getNgrams (tokenize text) 3) 10 (length (tokenize text))"
    by simp_all
qed

subsection \<open>The example of the specification, evaluated\<close>

lemma cat_tokens:
  "tokenize ''the cat sat on the mat. the cat ran.'' =
     [''the'', ''cat'', ''sat'', ''on'', ''the'', ''mat'', ''the'', ''cat'', ''ran'']"
  by code_simp

lemma cat_unique:
  "card (set [''the'', ''cat'', ''sat'', ''on'', ''the'', ''mat'', ''the'', ''cat'', ''ran'']) = 6"
  by code_simp

lemma cat_wordFrequency:
  "wordFrequency [''the'', ''cat'', ''sat'', ''on'', ''the'', ''mat'', ''the'', ''cat'', ''ran''] =
     [(''cat'', 2), (''sat'', 1), (''mat'', 1), (''ran'', 1)]"
  by code_simp

lemma cat_bigrams:
  "getNgrams [''the'', ''cat'', ''sat'', ''on'', ''the'', ''mat'', ''the'', ''cat'', ''ran''] 2 =
     [(''cat sat'', 1), (''cat ran'', 1)]"
  by code_simp

lemma cat_trigrams:
  "getNgrams [''the'', ''cat'', ''sat'', ''on'', ''the'', ''mat'', ''the'', ''cat'', ''ran''] 3 = []"
  by code_simp

lemma percent_2_9: "percent 2 9 = ''22.22%''"
  by code_simp

lemma percent_1_9: "percent 1 9 = ''11.11%''"
  by code_simp

lemma cat_target:
  "targetCount [(''cat'', 2), (''sat'', 1), (''mat'', 1), (''ran'', 1)]
     [''the'', ''cat'', ''sat'', ''on'', ''the'', ''mat'', ''the'', ''cat'', ''ran'']
     (trim (toLowerCase ''cat'')) = Some 2"
  by code_simp

lemma cat_length:
  "length [''the'', ''cat'', ''sat'', ''on'', ''the'', ''mat'', ''the'', ''cat'', ''ran''] = 9"
  by simp

lemma cat_sorted_words:
  "take 15 (sort_key (\<lambda>(k, c). - int c) [(''cat'', 2), (''sat'', 1), (''mat'', 1), (''ran'', 1)]) =
     [(''cat'', 2), (''sat'', 1), (''mat'', 1), (''ran'', 1)]"
  by code_simp

lemma cat_sorted_bigrams:
  "take 10 (sort_key (\<lambda>(k, c). - int c) [(''cat sat'', 1), (''cat ran'', 1)]) =
     [(''cat sat'', 1), (''cat ran'', 1)]"
  by code_simp

lemma cat_top_words:
  "topN [(''cat'', 2), (''sat'', 1), (''mat'', 1), (''ran'', 1)] 15 9 =
     [\<lparr>label = ''cat'', count = 2, density = ''22.22%''\<rparr>,
      \<lparr>label = ''sat'', count = 1, density = ''11.11%''\<rparr>,
      \<lparr>label = ''mat'', count = 1, density = ''11.11%''\<rparr>,
      \<lparr>label = ''ran'', count = 1, density = ''11.11%''\<rparr>]"
  unfolding topN_def cat_sorted_words
  by (simp add: percent_2_9 percent_1_9 del: One_nat_def)

lemma cat_top_bigrams:
  "topN [(''cat sat'', 1), (''cat ran'', 1)] 10 9 =
     [\<lparr>label = ''cat sat'', count = 1, density = ''11.11%''\<rparr>,
      \<lparr>label = ''cat ran'', count = 1, density = ''11.11%''\<rparr>]"
  unfolding topN_def cat_sorted_bigrams
  by (simp add: percent_1_9 del: One_nat_def)

lemma cat_top_trigrams: "topN [] 10 9 = []"
  by (simp add: topN_def)

lemma keywordDensity_cat:
  "keywordDensity ''the cat sat on the mat. the cat ran.'' (Some ''cat'') = Some (Report catReport)"
  unfolding keywordDensity_def Let_def cat_tokens cat_length cat_unique cat_wordFrequency
    cat_bigrams cat_trigrams cat_top_words cat_top_bigrams cat_top_trigrams catReport_def
  by (simp add: cat_target percent_2_9 del: One_nat_def)

subsection \<open>Theorems about the reports of keyword_density\<close>

text \<open>
  C3. For the text \<open>the cat sat on the mat. the cat ran.\<close> and the target \<open>cat\<close>,
  keywordDensity reports 9 words in total, a target count of 2 and the target density
  \<open>22.22%\<close>.
\<close>

theorem keywordDensity_cat_example:
  "\<exists>r. keywordDensity ''the cat sat on the mat. the cat ran.'' (Some ''cat'') = Some (Report r)
      \<and> totalWords r = 9
      \<and> targetKeyword r = Some \<lparr>label = ''cat'', count = 2, density = ''22.22%''\<rparr>"
proof (intro exI conjI)
  show "keywordDensity ''the cat sat on the mat. the cat ran.'' (Some ''cat'') = Some (Report catReport)"
    by (rule keywordDensity_cat)
  show "totalWords catReport = 9"
    by (simp add: catReport_def)
  show "targetKeyword catReport = Some \<lparr>label = ''cat'', count = 2, density = ''22.22%''\<rparr>"
    by (simp add: catReport_def)
qed

lemma ngram_members:
  assumes e: "e \<in> set (topN (getNgrams (tokenize text) n) m tot)" and n: "0 < n"
  shows "length (splitSpace (label e)) = n \<and> sublist (splitSpace (label e)) (tokenize text)
       \<and> joinSpace (splitSpace (label e)) = label e
       \<and> (\<forall>w \<in> set (splitSpace (label e)). w \<notin> STOP_WORDS)"
proof -
  let ?words = "tokenize text"
  from e topN_labels have "label e \<in> keys (getNgrams ?words n)" by blast
  from getNgrams_keys [OF this] obtain i where i: "i + n \<le> length ?words"
    and l: "label e = joinSpace (take n (drop i ?words))"
    and s: "\<not> list_ex (\<lambda>w. w \<in> STOP_WORDS) (splitSpace (label e))" by blast
  let ?ws = "take n (drop i ?words)"
  from i n have len: "length ?ws = n" by simp
  with n have ne: "?ws \<noteq> []" by auto
  have "\<forall>w \<in> set ?ws. CHR '' '' \<notin> set w"
    using tokenize_no_space [of _ "text"] by (meson in_set_dropD in_set_takeD)
  with ne have sp: "splitSpace (label e) = ?ws"
    unfolding l by (rule splitSpace_joinSpace)
  have "drop i ?words = ?ws @ drop n (drop i ?words)"
    by (rule append_take_drop_id [symmetric])
  then have "?words = take i ?words @ ?ws @ drop n (drop i ?words)"
    by (metis append_take_drop_id)
  then have "sublist ?ws ?words" unfolding sublist_def by blast
  with sp len l s show ?thesis by (simp add: list_ex_iff)
qed

text \<open>
  C6. In a report of keywordDensity, no entry of topSingleWords is a stop word, and
  the member tokens of every phrase of topBigrams (topTrigrams) are two (three)
  consecutive tokens of the text none of which is a stop word.
\<close>

theorem keywordDensity_excludes_stop_words:
  assumes "keywordDensity text keyword = Some (Report r)"
  shows "(\<forall>e \<in> set (topSingleWords r). label e \<notin> STOP_WORDS)
       \<and> (\<forall>e \<in> set (topBigrams r).
            length (splitSpace (label e)) = 2 \<and> sublist (splitSpace (label e)) (tokenize text)
            \<and> joinSpace (splitSpace (label e)) = label e
            \<and> (\<forall>w \<in> set (splitSpace (label e)). w \<notin> STOP_WORDS))
       \<and> (\<forall>e \<in> set (topTrigrams r).
            length (splitSpace (label e)) = 3 \<and> sublist (splitSpace (label e)) (tokenize text)
            \<and> joinSpace (splitSpace (label e)) = label e
            \<and> (\<forall>w \<in> set (splitSpace (label e)). w \<notin> STOP_WORDS))"
proof -
  note rep = keywordDensity_Report [OF assms]
  have single: "\<forall>e \<in> set (topSingleWords r). label e \<notin> STOP_WORDS"
  proof
    fix e assume "e \<in> set (topSingleWords r)"
    then have "label e \<in> keys (wordFrequency (tokenize text))"
      using topN_labels unfolding rep(3) by blast
    then show "label e \<notin> STOP_WORDS"
      unfolding wordFrequency_keys by simp
  qed
  have bi: "\<forall>e \<in> set (topBigrams r).
            length (splitSpace (label e)) = 2 \<and> sublist (splitSpace (label e)) (tokenize text)
            \<and> joinSpace (splitSpace (label e)) = label e
            \<and> (\<forall>w \<in> set (splitSpace (label e)). w \<notin> STOP_WORDS)"
    unfolding rep(4) by (intro ballI ngram_members) simp_all
  have tri: "\<forall>e \<in> set (topTrigrams r).
            length (splitSpace (label e)) = 3 \<and> sublist (splitSpace (label e)) (tokenize text)
            \<and> joinSpace (splitSpace (label e)) = label e
            \<and> (\<forall>w \<in> set (splitSpace (label e)). w \<notin> STOP_WORDS)"
    unfolding rep(5) by (intro ballI ngram_members) simp_all
  from single bi tri show ?thesis by (intro conjI)
qed

theorem keywordDensity_excludes_stop_words_witness:
  "keywordDensity ''the cat sat on the mat. the cat ran.'' (Some ''cat'') = Some (Report catReport)
   \<and> list_all (\<lambda>e. label e \<notin> STOP_WORDS) (topSingleWords catReport)
   \<and> list_all (\<lambda>e. length (splitSpace (label e)) = 2
        \<and> sublist (splitSpace (label e)) (tokenize ''the cat sat on the mat. the cat ran.'')
        \<and> joinSpace (splitSpace (label e)) = label e
        \<and> list_all (\<lambda>w. w \<notin> STOP_WORDS) (splitSpace (label e))) (topBigrams catReport)
   \<and> list_all (\<lambda>e. length (splitSpace (label e)) = 3
        \<and> sublist (splitSpace (label e)) (tokenize ''the cat sat on the mat. the cat ran.'')
        \<and> joinSpace (splitSpace (label e)) = label e
        \<and> list_all (\<lambda>w. w \<notin> STOP_WORDS) (splitSpace (label e))) (topTrigrams catReport)"
  unfolding list_all_iff
  using keywordDensity_cat keywordDensity_excludes_stop_words [OF keywordDensity_cat]
  by (rule conjI)

subsection \<open>The count of a phrase\<close>

lemma keywordDensity_targetCount:
  assumes "tokenize text \<noteq> []" and "kw \<noteq> []"
  shows "reportedTargetCount (keywordDensity text (Some kw)) =
           targetCount (wordFrequency (tokenize text)) (tokenize text) (trim (toLowerCase kw))"
proof -
  obtain c where "targetCount (wordFrequency (tokenize text)) (tokenize text) (trim (toLowerCase kw)) = Some c"
    using targetCount_returns by blast
  with assms show ?thesis
    by (simp add: keywordDensity_def Let_def reportedTargetCount_def)
qed

lemma targetCount_phrase:
  assumes "length (splitRuns isSpace target) \<noteq> 1"
  shows "targetCount wordCounts words target = Some (scanCount target (joinSpace words))"
proof -
  from assms have "target \<noteq> []" by auto
  from phraseLoop_scanCount [OF this, of 0 "joinSpace words" 0] assms
  show ?thesis by (simp add: targetCount_def)
qed

lemma occurrences_Cons:
  "occurrences t (c # cs) = (if take (length t) (c # cs) = t then 1 else 0) + occurrences t cs"
proof -
  have "[0 ..< Suc (length (c # cs))] = 0 # [Suc 0 ..< Suc (length (c # cs))]"
    by (rule upt_conv_Cons) simp
  also have "[Suc 0 ..< Suc (length (c # cs))] = map Suc [0 ..< Suc (length cs)]"
    unfolding map_Suc_upt by simp
  finally have "[0 ..< Suc (length (c # cs))] = 0 # map Suc [0 ..< Suc (length cs)]" .
  then show ?thesis
    by (simp add: occurrences_def filter_map comp_def del: upt_Suc)
qed

lemma occurrences_drop: "occurrences t (drop k s) \<le> occurrences t s"
proof (induction s arbitrary: k)
  case Nil
  then show ?case by simp
next
  case (Cons c cs)
  show ?case
  proof (cases k)
    case 0
    then show ?thesis by simp
  next
    case (Suc j)
    with Cons [of j] show ?thesis by (simp add: occurrences_Cons)
  qed
qed

lemma scanCount_le_occurrences: "scanCount t s \<le> occurrences t s"
proof (induction t s rule: scanCount.induct)
  case (1 t)
  then show ?case by simp
next
  case (2 t c cs)
  show ?case
  proof (cases "t \<noteq> [] \<and> prefix t (c # cs)")
    case True
    then have "take (length t) (c # cs) = t" by (simp add: prefix_take_eq)
    moreover have "scanCount t (drop (length t - 1) cs) \<le> occurrences t cs"
      using "2.IH"(1) [OF True] occurrences_drop [of t "length t - 1" cs] by simp
    ultimately show ?thesis using True by (simp add: occurrences_Cons)
  next
    case False
    then have "scanCount t (c # cs) = scanCount t cs" by auto
    with "2.IH"(2) [OF False] show ?thesis by (simp add: occurrences_Cons)
  qed
qed

lemma go_tokens: "tokenize ''go go go'' = [''go'', ''go'', ''go'']"
  by code_simp

lemma go_target: "trim (toLowerCase ''go go'') = ''go go''"
  by code_simp

lemma go_targetWords: "length (splitRuns isSpace ''go go'') \<noteq> 1"
  by code_simp

lemma go_joined: "joinSpace [''go'', ''go'', ''go''] = ''go go go''"
  by simp

lemma go_scanCount: "scanCount ''go go'' ''go go go'' = 1"
  by code_simp

lemma go_occurrences: "occurrences ''go go'' ''go go go'' = 2"
  by code_simp

text \<open>
  C1, as stated, fails: in \<open>go go go\<close> the phrase \<open>go go\<close> occurs twice, at the
  positions 0 and 3, and keywordDensity reports the count 1.
\<close>

theorem keywordDensity_overlap_counterexample:
  "length (splitRuns isSpace (trim (toLowerCase ''go go''))) \<noteq> 1
   \<and> reportedTargetCount (keywordDensity ''go go go'' (Some ''go go'')) = Some 1
   \<and> occurrences (trim (toLowerCase ''go go'')) (joinSpace (tokenize ''go go go'')) = 2"
proof -
  have "tokenize ''go go go'' \<noteq> []" and "''go go'' \<noteq> []"
    by (simp_all add: go_tokens)
  from keywordDensity_targetCount [OF this]
  have "reportedTargetCount (keywordDensity ''go go go'' (Some ''go go'')) = Some 1"
    unfolding go_target go_tokens targetCount_phrase [OF go_targetWords] go_joined go_scanCount .
  then show ?thesis
    unfolding go_target go_tokens go_joined go_occurrences using go_targetWords by simp
qed

text \<open>
  C1, amended. For a text with at least one token and a target phrase of several
  tokens, the reported target count is the number of occurrences of the lowercased,
  trimmed phrase that a left-to-right reading of the space-joined token stream meets
  when it resumes behind each occurrence it counts; overlapping occurrences are not
  counted, so the count is at most the number of all occurrences.
\<close>

theorem keywordDensity_phrase_count:
  assumes "tokenize text \<noteq> []" and "kw \<noteq> []"
    and "length (splitRuns isSpace (trim (toLowerCase kw))) \<noteq> 1"
  shows "reportedTargetCount (keywordDensity text (Some kw)) =
           Some (scanCount (trim (toLowerCase kw)) (joinSpace (tokenize text)))
       \<and> scanCount (trim (toLowerCase kw)) (joinSpace (tokenize text))
           \<le> occurrences (trim (toLowerCase kw)) (joinSpace (tokenize text))"
  using keywordDensity_targetCount [OF assms(1,2)] targetCount_phrase [OF assms(3)]
    scanCount_le_occurrences by simp

theorem keywordDensity_phrase_count_witness:
  "tokenize ''go go go'' \<noteq> [] \<and> ''go go'' \<noteq> []
   \<and> length (splitRuns isSpace (trim (toLowerCase ''go go''))) \<noteq> 1
   \<and> reportedTargetCount (keywordDensity ''go go go'' (Some ''go go'')) =
        Some (scanCount (trim (toLowerCase ''go go'')) (joinSpace (tokenize ''go go go'')))
   \<and> scanCount (trim (toLowerCase ''go go'')) (joinSpace (tokenize ''go go go''))
        \<le> occurrences (trim (toLowerCase ''go go'')) (joinSpace (tokenize ''go go go''))"
proof -
  have h1: "tokenize ''go go go'' \<noteq> []" by (simp add: go_tokens)
  have h2: "''go go'' \<noteq> []" by simp
  have h3: "length (splitRuns isSpace (trim (toLowerCase ''go go''))) \<noteq> 1"
    unfolding go_target by (rule go_targetWords)
  from h1 h2 h3 keywordDensity_phrase_count [OF h1 h2 h3] show ?thesis by (intro conjI) simp_all
qed

section \<open>Properties of readability\<close>

subsection \<open>Finite numbers\<close>

lemma isFinite_iff: "isFinite x \<longleftrightarrow> (\<exists>a. x = Num a)"
  by (cases x) simp_all

lemma isFinite_ofNat: "isFinite (ofNat n)"
  by (simp add: ofNat_def)

lemma isFinite_lit: "isFinite (lit x)"
  by (simp add: lit_def)

lemma isFinite_jsmul: "isFinite x \<Longrightarrow> isFinite y \<Longrightarrow> isFinite (jsmul x y)"
  by (auto simp: isFinite_iff)

lemma isFinite_jsadd: "isFinite x \<Longrightarrow> isFinite y \<Longrightarrow> isFinite (jsadd x y)"
  by (auto simp: isFinite_iff)

lemma isFinite_jssub: "isFinite x \<Longrightarrow> isFinite y \<Longrightarrow> isFinite (jssub x y)"
  by (auto simp: isFinite_iff jssub_def)

lemma isFinite_jsdiv: "isFinite x \<Longrightarrow> n \<noteq> 0 \<Longrightarrow> isFinite (jsdiv x (ofNat n))"
  by (auto simp: isFinite_iff ofNat_def)

lemma isFinite_jsdiv_Num: "isFinite x \<Longrightarrow> b \<noteq> 0 \<Longrightarrow> isFinite (jsdiv x (Num b))"
  by (auto simp: isFinite_iff)

lemma isFinite_Math_round: "isFinite x \<Longrightarrow> isFinite (Math_round x)"
  by (auto simp: isFinite_iff)

lemma clamp_0_100:
  assumes "isFinite y"
  shows "\<exists>e. Math_max (Num 0) (Math_min (Num 100) y) = Num e \<and> 0 \<le> e \<and> e \<le> 100"
proof -
  from assms obtain a where "y = Num a" by (auto simp: isFinite_iff)
  then show ?thesis by (simp add: Math_max_def Math_min_def)
qed

lemma clamp_0:
  assumes "isFinite y"
  shows "\<exists>g. Math_max (Num 0) y = Num g \<and> 0 \<le> g"
proof -
  from assms obtain a where "y = Num a" by (auto simp: isFinite_iff)
  then show ?thesis by (simp add: Math_max_def)
qed

subsection \<open>The two branches of readability\<close>

lemma readability_short:
  "length (splitWords text) < 10 \<Longrightarrow> readability text = ErrorObject tooShort"
  by (simp add: readability_def Let_def)

lemma readability_long:
  assumes "10 \<le> length (splitWords text)"
  shows "\<exists>r e g. readability text = Report r
           \<and> Scored.score (fleschReadingEase r) = Num e \<and> 0 \<le> e \<and> e \<le> 100
           \<and> Scored.score (fleschKincaidGrade r) = Num g \<and> 0 \<le> g
           \<and> finiteReadabilityResult r"
proof -
  let ?wc = "length (splitWords text)"
  let ?sc = "max (length (splitSentences text)) 1"
  let ?syl = "fold (\<lambda>w sum. sum + countSyllables w) (splitWords text) 0"
  let ?avgW = "jsdiv (ofNat ?wc) (ofNat ?sc)"
  let ?avgS = "jsdiv (ofNat ?syl) (ofNat ?wc)"
  let ?ease = "jssub (jssub (lit 206.835) (jsmul (lit 1.015) ?avgW)) (jsmul (lit 84.6) ?avgS)"
  let ?grade = "jssub (jsadd (jsmul (lit 0.39) ?avgW) (jsmul (lit 11.8) ?avgS)) (lit 15.59)"
  let ?re = "jsdiv (Math_round (jsmul ?ease (Num 10))) (Num 10)"
  let ?rg = "jsdiv (Math_round (jsmul ?grade (Num 10))) (Num 10)"
  from assms have wc: "?wc \<noteq> 0" by (cases "splitWords text") simp_all
  have sc: "?sc \<noteq> 0" by simp
  have avgW: "isFinite ?avgW" using sc by (intro isFinite_jsdiv isFinite_ofNat)
  have avgS: "isFinite ?avgS" using wc by (intro isFinite_jsdiv isFinite_ofNat)
  have ten: "isFinite (Num 10)" and hundred: "isFinite (Num 100)" by simp_all
  have "isFinite ?ease"
    by (intro isFinite_jssub isFinite_jsmul isFinite_lit avgW avgS)
  then have re: "isFinite ?re"
    by (intro isFinite_jsdiv_Num isFinite_Math_round isFinite_jsmul ten) simp_all
  have "isFinite ?grade"
    by (intro isFinite_jssub isFinite_jsadd isFinite_jsmul isFinite_lit avgW avgS)
  then have rg: "isFinite ?rg"
    by (intro isFinite_jsdiv_Num isFinite_Math_round isFinite_jsmul ten) simp_all
  from clamp_0_100 [OF re] obtain e where
    e: "Math_max (Num 0) (Math_min (Num 100) ?re) = Num e" "0 \<le> e" "e \<le> 100" by blast
  from clamp_0 [OF rg] obtain g where
    g: "Math_max (Num 0) ?rg = Num g" "0 \<le> g" by blast
  have s1: "isFinite (jsdiv (Math_round (jsmul ?avgW (Num 10))) (Num 10))"
    by (intro isFinite_jsdiv_Num isFinite_Math_round isFinite_jsmul ten avgW) simp
  have s2: "isFinite (jsdiv (Math_round (jsmul ?avgS (Num 100))) (Num 100))"
    by (intro isFinite_jsdiv_Num isFinite_Math_round isFinite_jsmul hundred avgS) simp
  have s3: "isFinite (jsdiv (Math_round (jsmul (jsdiv (ofNat ?wc) (Num 238)) (Num 10))) (Num 10))"
    by (intro isFinite_jsdiv_Num isFinite_Math_round isFinite_jsmul ten isFinite_ofNat) simp_all
  from assms have "\<not> ?wc < 10" by simp
  then show ?thesis
    unfolding readability_def Let_def
    using e g s1 s2 s3 by (simp add: finiteReadabilityResult_def)
qed

subsection \<open>Ten words, evaluated\<close>

lemma ten_words:
  "splitWords ''The cat sat on a mat. The dog ran off.'' =
     [''The'', ''cat'', ''sat'', ''on'', ''a'', ''mat'', ''The'', ''dog'', ''ran'', ''off'']"
  by code_simp

lemma ten_sentences:
  "splitSentences ''The cat sat on a mat. The dog ran off.'' =
     [''The cat sat on a mat'', ''The dog ran off'']"
  by code_simp

lemma ten_paragraphs:
  "splitParagraphs ''The cat sat on a mat. The dog ran off.'' =
     [''The cat sat on a mat. The dog ran off.'']"
  by code_simp

lemma ten_syllables:
  "fold (\<lambda>w sum. sum + countSyllables w)
     [''The'', ''cat'', ''sat'', ''on'', ''a'', ''mat'', ''The'', ''dog'', ''ran'', ''off''] 0 = 10"
  by code_simp

lemma ten_lengths:
  "length [''The'', ''cat'', ''sat'', ''on'', ''a'', ''mat'', ''The'', ''dog'', ''ran'', ''off''] = 10"
  "max (length [''The cat sat on a mat'', ''The dog ran off'']) 1 = 2"
  "length [''The cat sat on a mat. The dog ran off.''] = 1"
  by simp_all

lemma ten_averages:
  "jsdiv (ofNat 10) (ofNat 2) = Num 5"
  "jsdiv (ofNat 10) (ofNat 10) = Num 1"
  by code_simp+

lemma ten_ease:
  "Math_max (Num 0)
     (Math_min (Num 100)
       (jsdiv (Math_round (jsmul
          (jssub (jssub (lit 206.835) (jsmul (lit 1.015) (Num 5))) (jsmul (lit 84.6) (Num 1)))
          (Num 10))) (Num 10))) = Num 100"
  by code_simp

lemma ten_grade:
  "Math_max (Num 0)
     (jsdiv (Math_round (jsmul
        (jssub (jsadd (jsmul (lit 0.39) (Num 5)) (jsmul (lit 11.8) (Num 1))) (lit 15.59))
        (Num 10))) (Num 10)) = Num 0"
  by code_simp

lemma ten_stats:
  "jsdiv (Math_round (jsmul (jsdiv (ofNat 10) (Num 238)) (Num 10))) (Num 10) = Num 0"
  "jsdiv (Math_round (jsmul (Num 5) (Num 10))) (Num 10) = Num 5"
  "jsdiv (Math_round (jsmul (Num 1) (Num 100))) (Num 100) = Num 1"
  by code_simp+

lemma ten_tips:
  "\<not> jsgreater (Num 5) (Num 25)" "\<not> jsgreater (Num 1) (lit 1.7)" "\<not> jsless (Num 100) (Num 50)"
  by code_simp+

lemma ten_bands:
  "interpretFleschEase (Num 100) = ''Very Easy (5th grade)''"
  "interpretGradeLevel (Num 0) = ''Elementary school level''"
  by code_simp+

lemma readability_ten:
  "readability ''The cat sat on a mat. The dog ran off.'' = Report tenWordReport"
  unfolding readability_def Let_def ten_words ten_sentences ten_paragraphs ten_syllables ten_lengths
    ten_averages ten_ease ten_grade ten_stats ten_bands tenWordReport_def
  by (simp add: ten_tips)

section \<open>No NaN and no Infinity\<close>

lemma toFixed2_Num_shape:
  "\<exists>s a b. toFixed2 (Num x) @ ''%'' = s @ [CHR ''.'', a, b, CHR ''%'']"
  by (simp add: Let_def)

lemma toFixed2_Num_not_special:
  "toFixed2 (Num x) @ ''%'' \<notin> {''NaN%'', ''Infinity%'', ''-Infinity%''}"
proof -
  obtain s a b where eq: "toFixed2 (Num x) @ ''%'' = s @ [CHR ''.'', a, b, CHR ''%'']"
    using toFixed2_Num_shape by blast
  have "rev (s @ [CHR ''.'', a, b, CHR ''%'']) ! 3 = CHR ''.''" by simp
  moreover have "rev ''NaN%'' ! 3 \<noteq> CHR ''.''" "rev ''Infinity%'' ! 3 \<noteq> CHR ''.''"
    "rev ''-Infinity%'' ! 3 \<noteq> CHR ''.''" by simp_all
  ultimately show ?thesis unfolding eq by auto
qed

lemma finiteEntry_percent:
  assumes "tot \<noteq> 0"
  shows "finiteEntry tot \<lparr>label = k, count = c, density = percent c tot\<rparr>"
proof -
  have "isFinite (densityValue c tot)"
    unfolding densityValue_def using assms
    by (intro isFinite_jsmul isFinite_jsdiv isFinite_ofNat) simp_all
  then obtain x where x: "densityValue c tot = Num x" by (auto simp: isFinite_iff)
  then show ?thesis
    using toFixed2_Num_not_special [of x] by (simp add: finiteEntry_def percent_def)
qed

lemma finiteEntry_topN:
  assumes "tot \<noteq> 0"
  shows "list_all (finiteEntry tot) (topN counts n tot)"
  unfolding topN_def list_all_iff using finiteEntry_percent [OF assms] by auto

lemma keywordDensity_finite:
  assumes "keywordDensity text keyword = Some (Report r)"
  shows "finiteKeywordResult r"
proof -
  let ?n = "length (tokenize text)"
  have ne: "tokenize text \<noteq> []" using assms by (auto simp: keywordDensity_def)
  then have n: "?n \<noteq> 0" by simp
  from assms ne obtain tr where r:
    "r = \<lparr>totalWords = ?n,
          uniqueWords = card (set (tokenize text)),
          targetKeyword = tr,
          topSingleWords = topN (wordFrequency (tokenize text)) 15 ?n,
          topBigrams = topN (getNgrams (tokenize text) 2) 10 ?n,
          topTrigrams = topN (getNgrams (tokenize text) 3) 10 ?n\<rparr>"
    and tr: "tr = None \<or> (\<exists>kw c. tr = Some \<lparr>label = kw, count = c, density = percent c ?n\<rparr>)"
    unfolding keywordDensity_def Let_def by (auto simp: map_option_case split: option.splits if_splits)
  from tr have "case tr of None \<Rightarrow> True | Some t \<Rightarrow> finiteEntry ?n t"
    using finiteEntry_percent [OF n] by auto
  then show ?thesis
    unfolding finiteKeywordResult_def r using finiteEntry_topN [OF n]
    by (simp split: option.splits)
qed

section \<open>Theorems about readability and about degenerate inputs\<close>

text \<open>
  C5. readability returns the too-short error object exactly for the texts of fewer
  than 10 words, and a score report exactly for the texts of 10 words or more; ten
  words of one syllable in two sentences give a report.
\<close>

theorem readability_too_short_iff:
  "(readability text = ErrorObject tooShort \<longleftrightarrow> length (splitWords text) < 10)
   \<and> ((\<exists>r. readability text = Report r) \<longleftrightarrow> 10 \<le> length (splitWords text))"
proof (cases "length (splitWords text) < 10")
  case True
  with readability_short [OF True] show ?thesis by simp
next
  case False
  then have "10 \<le> length (splitWords text)" by simp
  from readability_long [OF this] obtain r where "readability text = Report r" by blast
  with False show ?thesis by simp
qed

theorem readability_too_short_iff_witness:
  "length (splitWords ''The cat sat on a mat. The dog ran off.'') = 10
   \<and> length (splitSentences ''The cat sat on a mat. The dog ran off.'') = 2
   \<and> readability ''The cat sat on a mat. The dog ran off.'' = Report tenWordReport
   \<and> readability ''The cat sat on a mat. The dog ran off.'' \<noteq> ErrorObject tooShort"
  using readability_too_short_iff [of "''The cat sat on a mat. The dog ran off.''"] readability_ten
  by (simp add: ten_words ten_sentences)

text \<open>
  C7. For a text of at least 10 words, readability returns a report whose Flesch
  Reading Ease score is a number between 0 and 100 and whose Flesch-Kincaid Grade
  Level score is a number that is not negative.
\<close>

theorem readability_scores_in_range:
  assumes "10 \<le> length (splitWords text)"
  shows "\<exists>r e g. readability text = Report r
           \<and> Scored.score (fleschReadingEase r) = Num e \<and> 0 \<le> e \<and> e \<le> 100
           \<and> Scored.score (fleschKincaidGrade r) = Num g \<and> 0 \<le> g"
  using readability_long [OF assms] by blast

theorem readability_scores_in_range_witness:
  "10 \<le> length (splitWords ''The cat sat on a mat. The dog ran off.'')
   \<and> (\<exists>r e g. readability ''The cat sat on a mat. The dog ran off.'' = Report r
           \<and> Scored.score (fleschReadingEase r) = Num e \<and> 0 \<le> e \<and> e \<le> 100
           \<and> Scored.score (fleschKincaidGrade r) = Num g \<and> 0 \<le> g)"
proof -
  have h: "10 \<le> length (splitWords ''The cat sat on a mat. The dog ran off.'')"
    by (simp add: ten_words)
  from h readability_scores_in_range [OF h] show ?thesis by (rule conjI)
qed

text \<open>
  C8. On a text without tokens keywordDensity returns the error object, and so does
  readability on a text without words; a report of either function holds no \<open>NaN\<close>
  and no infinity: every number of a readability report is finite, and every density
  of a keyword report is the text of a finite number.
\<close>

theorem degenerate_inputs_give_errors:
  "(tokenize text = [] \<longrightarrow>
      keywordDensity text keyword = Some (ErrorObject ''No words found in the provided text.''))
   \<and> (splitWords text = [] \<longrightarrow> readability text = ErrorObject tooShort)
   \<and> (\<forall>r. keywordDensity text keyword = Some (Report r) \<longrightarrow> finiteKeywordResult r)
   \<and> (\<forall>r. readability text = Report r \<longrightarrow> finiteReadabilityResult r)"
proof (intro conjI impI allI)
  assume "tokenize text = []"
  then show "keywordDensity text keyword = Some (ErrorObject ''No words found in the provided text.'')"
    by (simp add: keywordDensity_def)
next
  assume "splitWords text = []"
  then show "readability text = ErrorObject tooShort"
    by (simp add: readability_short)
next
  fix r assume "keywordDensity text keyword = Some (Report r)"
  then show "finiteKeywordResult r" by (rule keywordDensity_finite)
next
  fix r assume r: "readability text = Report r"
  then have "\<not> length (splitWords text) < 10"
    using readability_short [of "text"] by auto
  then have "10 \<le> length (splitWords text)" by simp
  from readability_long [OF this] r show "finiteReadabilityResult r" by auto
qed

lemma no_tokens: "tokenize ''a !'' = []"
  by code_simp

lemma no_words: "splitWords ''?!'' = []"
  by code_simp

theorem degenerate_inputs_give_errors_witness:
  "tokenize ''a !'' = []
   \<and> keywordDensity ''a !'' (Some ''a'') = Some (ErrorObject ''No words found in the provided text.'')
   \<and> splitWords ''?!'' = []
   \<and> readability ''?!'' = ErrorObject tooShort
   \<and> keywordDensity ''the cat sat on the mat. the cat ran.'' (Some ''cat'') = Some (Report catReport)
   \<and> finiteKeywordResult catReport
   \<and> readability ''The cat sat on a mat. The dog ran off.'' = Report tenWordReport
   \<and> finiteReadabilityResult tenWordReport"
  using degenerate_inputs_give_errors [of "''a !''" "Some ''a''"]
    degenerate_inputs_give_errors [of "''?!''" None]
    degenerate_inputs_give_errors [of "''the cat sat on the mat. the cat ran.''" "Some ''cat''"]
    degenerate_inputs_give_errors [of "''The cat sat on a mat. The dog ran off.''" None]
    no_tokens no_words keywordDensity_cat readability_ten
  by blast

section \<open>Properties of heading_structure\<close>

lemma H_digits: "H 1 = ''H1''" "H 2 = ''H2''" "H 3 = ''H3''" "H (Suc 0) = ''H1''"
  by code_simp+

lemma issues_H1_H3:
  "HeadingAnalysis.issues
     (headingStructure u [\<lparr>level = 1, headingText = a\<rparr>, \<lparr>level = 3, headingText = b\<rparr>]) =
   [skippedLevel 1 3 a]
   @ (if 70 < length a then [tooLongHeading \<lparr>level = 1, headingText = a\<rparr>] else [])
   @ (if 70 < length b then [tooLongHeading \<lparr>level = 3, headingText = b\<rparr>] else [])"
  by (simp add: headingStructure_def Let_def countLevels_def bump_def H1_def H_digits)

lemma issues_H2_H1:
  "HeadingAnalysis.issues
     (headingStructure u [\<lparr>level = 2, headingText = a\<rparr>, \<lparr>level = 1, headingText = b\<rparr>]) =
   [firstNotH1 2]
   @ (if 70 < length a then [tooLongHeading \<lparr>level = 2, headingText = a\<rparr>] else [])
   @ (if 70 < length b then [tooLongHeading \<lparr>level = 1, headingText = b\<rparr>] else [])"
  by (simp add: headingStructure_def Let_def countLevels_def bump_def H1_def H_digits)

lemma skippedLevel_is_skipped: "isSkippedLevelIssue (skippedLevel p c t)"
  by (simp add: isSkippedLevelIssue_def skippedLevel_def)

lemma tooLongHeading_not_skipped: "\<not> isSkippedLevelIssue (tooLongHeading h)"
  by (simp add: isSkippedLevelIssue_def tooLongHeading_def H_def)

lemma firstNotH1_not_skipped: "\<not> isSkippedLevelIssue (firstNotH1 l)"
  by (simp add: isSkippedLevelIssue_def firstNotH1_def)

lemma filter_concat_all:
  "\<forall>x \<in> set xs. \<forall>y \<in> set (f x). P y \<Longrightarrow> filter P (concat (map f xs)) = concat (map f xs)"
  by (induction xs) (auto simp: filter_id_conv)

lemma filter_concat_none:
  "\<forall>x \<in> set xs. \<forall>y \<in> set (f x). \<not> P y \<Longrightarrow> filter P (concat (map f xs)) = []"
  by (induction xs) (auto simp: filter_empty_conv)

lemma other_issues_not_skipped:
  "\<not> isSkippedLevelIssue missingH1" "\<not> isSkippedLevelIssue (multipleH1 n)"
  "\<not> isSkippedLevelIssue noHeadings"
  by (simp_all add: isSkippedLevelIssue_def missingH1_def multipleH1_def noHeadings_def)

lemma skipped_issues:
  "filter isSkippedLevelIssue (HeadingAnalysis.issues (headingStructure u hs)) =
     concat (map (\<lambda>i. if level (hs ! (i - 1)) + 1 < level (hs ! i)
                        then [skippedLevel (level (hs ! (i - 1))) (level (hs ! i))
                                (headingText (hs ! (i - 1)))]
                        else [])
                 [1 ..< length hs])"
proof -
  define h1 where "h1 =
    (if H1 (countLevels hs) = 0 then [missingH1]
     else if 1 < H1 (countLevels hs) then [multipleH1 (H1 (countLevels hs))] else [])"
  define skip where "skip = concat (map (\<lambda>i. if map level hs ! (i - 1) + 1 < map level hs ! i
                               then [skippedLevel (map level hs ! (i - 1)) (map level hs ! i)
                                       (headingText (hs ! (i - 1)))]
                               else [])
                        [1 ..< length (map level hs)])"
  define first where "first =
    (if 0 < length hs \<and> level (hs ! 0) \<noteq> 1 then [firstNotH1 (level (hs ! 0))] else [])"
  define long where "long =
    concat (map (\<lambda>h. if 70 < length (headingText h) then [tooLongHeading h] else []) hs)"
  define empty where "empty = (if length hs = 0 then [noHeadings] else [])"
  have i: "HeadingAnalysis.issues (headingStructure u hs) = h1 @ skip @ first @ long @ empty"
    unfolding headingStructure_def Let_def h1_def skip_def first_def long_def empty_def by simp
  have s: "filter isSkippedLevelIssue skip = skip"
    unfolding skip_def
    by (rule filter_concat_all) (auto simp: skippedLevel_is_skipped split: if_splits)
  have l: "filter isSkippedLevelIssue long = []"
    unfolding long_def
    by (rule filter_concat_none) (auto simp: tooLongHeading_not_skipped split: if_splits)
  have o: "filter isSkippedLevelIssue h1 = []" "filter isSkippedLevelIssue first = []"
    "filter isSkippedLevelIssue empty = []"
    by (simp_all add: h1_def first_def empty_def other_issues_not_skipped firstNotH1_not_skipped)
  have "filter isSkippedLevelIssue (HeadingAnalysis.issues (headingStructure u hs)) = skip"
    unfolding i filter_append s l o by simp
  also have "skip = concat (map (\<lambda>i. if level (hs ! (i - 1)) + 1 < level (hs ! i)
                        then [skippedLevel (level (hs ! (i - 1))) (level (hs ! i))
                                (headingText (hs ! (i - 1)))]
                        else [])
                 [1 ..< length hs])"
    unfolding skip_def by (rule arg_cong [where f = concat], rule map_cong) auto
  finally show ?thesis .
qed

text \<open>
  C4. The skipped-level issues of headingStructure are, in document order, one
  message for every adjacent pair of headings whose later level exceeds the earlier
  one by more than 1, so a decrease in level is never a skip. For the headings H1, H3
  in this order there is exactly one skipped-level issue, which names H1 and H3; for
  the headings H2, H1 there is the wrong-first-heading issue and no skipped-level
  issue.
\<close>

theorem headingStructure_skipped_levels:
  "filter isSkippedLevelIssue (HeadingAnalysis.issues (headingStructure u hs)) =
     concat (map (\<lambda>i. if level (hs ! (i - 1)) + 1 < level (hs ! i)
                        then [skippedLevel (level (hs ! (i - 1))) (level (hs ! i))
                                (headingText (hs ! (i - 1)))]
                        else [])
                 [1 ..< length hs])
   \<and> filter isSkippedLevelIssue
     (HeadingAnalysis.issues
       (headingStructure u [\<lparr>level = 1, headingText = a\<rparr>, \<lparr>level = 3, headingText = b\<rparr>]))
     = [''Skipped heading level: H1 '' @ [CHR 0xE2, CHR 0x86, CHR 0x92] @ '' H3 (after ''
          @ [CHR 0x22] @ take 40 a @ [CHR 0x22] @ ''). Don't skip levels.'']
   \<and> ''First heading is H2, not H1. Start with H1.''
       \<in> set (HeadingAnalysis.issues
             (headingStructure u [\<lparr>level = 2, headingText = a\<rparr>, \<lparr>level = 1, headingText = b\<rparr>]))
   \<and> filter isSkippedLevelIssue
       (HeadingAnalysis.issues
         (headingStructure u [\<lparr>level = 2, headingText = a\<rparr>, \<lparr>level = 1, headingText = b\<rparr>]))
     = []"
proof (intro conjI)
  show "filter isSkippedLevelIssue (HeadingAnalysis.issues (headingStructure u hs)) =
     concat (map (\<lambda>i. if level (hs ! (i - 1)) + 1 < level (hs ! i)
                        then [skippedLevel (level (hs ! (i - 1))) (level (hs ! i))
                                (headingText (hs ! (i - 1)))]
                        else [])
                 [1 ..< length hs])"
    by (rule skipped_issues)
next
  have "skippedLevel 1 3 a =
      ''Skipped heading level: H1 '' @ [CHR 0xE2, CHR 0x86, CHR 0x92] @ '' H3 (after ''
          @ [CHR 0x22] @ take 40 a @ [CHR 0x22] @ ''). Don't skip levels.''"
    by (simp add: skippedLevel_def H_digits)
  then show "filter isSkippedLevelIssue
     (HeadingAnalysis.issues
       (headingStructure u [\<lparr>level = 1, headingText = a\<rparr>, \<lparr>level = 3, headingText = b\<rparr>]))
     = [''Skipped heading level: H1 '' @ [CHR 0xE2, CHR 0x86, CHR 0x92] @ '' H3 (after ''
          @ [CHR 0x22] @ take 40 a @ [CHR 0x22] @ ''). Don't skip levels.'']"
    unfolding issues_H1_H3
    using skippedLevel_is_skipped [of 1 3 a] tooLongHeading_not_skipped by simp
next
  have "firstNotH1 2 = ''First heading is H2, not H1. Start with H1.''"
    by (simp add: firstNotH1_def H_digits)
  then show "''First heading is H2, not H1. Start with H1.''
       \<in> set (HeadingAnalysis.issues
             (headingStructure u [\<lparr>level = 2, headingText = a\<rparr>, \<lparr>level = 1, headingText = b\<rparr>]))"
    unfolding issues_H2_H1 by simp
next
  show "filter isSkippedLevelIssue
       (HeadingAnalysis.issues
         (headingStructure u [\<lparr>level = 2, headingText = a\<rparr>, \<lparr>level = 1, headingText = b\<rparr>]))
     = []"
    unfolding issues_H2_H1
    using firstNotH1_not_skipped tooLongHeading_not_skipped by simp
qed

lemma empty_not_skipped:
  "\<not> strIncludes missingH1 ''Skipped''" "\<not> strIncludes noHeadings ''Skipped''"
  by code_simp+

text \<open>
  C10. Without headings, headingStructure reports the score \<open>3/4\<close>, the issues are
  the missing-H1 message and the no-headings message, and the outline is
  \<open>(no headings)\<close>.
\<close>

theorem headingStructure_no_headings:
  "headingStructure u [] =
     \<lparr>HeadingAnalysis.url = u, headingCount = 0, headings = [],
      hierarchy = [(''H1'', 0), (''H2'', 0), (''H3'', 0), (''H4'', 0), (''H5'', 0), (''H6'', 0)],
      HeadingAnalysis.issues =
        [''Missing H1 tag. Every page should have exactly one H1.'',
         ''No headings found on the page. Add headings to structure your content.''],
      outline = ''(no headings)'',
      HeadingAnalysis.score = ''3/4''\<rparr>"
proof -
  have "showNat 3 = ''3''" "showNat 4 = ''4''"
    by code_simp+
  then show ?thesis
    using empty_not_skipped
    by (simp add: headingStructure_def Let_def countLevels_def H1_def)
       (simp add: missingH1_def noHeadings_def)
qed

section \<open>Properties of meta_tags\<close>

lemma groupTags_fold_none:
  assumes "\<forall>t \<in> set tags. \<not> startsWith (property t) ''og:''
             \<and> \<not> startsWith (name t) ''twitter:'' \<and> \<not> startsWith (property t) ''twitter:''"
  shows "\<exists>ot'. fold (\<lambda>tag (og, tw, ot).
             if startsWith (property tag) ''og:''
             then (case property tag of
                     Some p \<Rightarrow> (objSet og p (content tag), tw, ot)
                   | None \<Rightarrow> (og, tw, ot))
             else if startsWith (name tag) ''twitter:'' \<or> startsWith (property tag) ''twitter:''
             then (case name tag of
                     Some n \<Rightarrow> (og, objSet tw n (content tag), ot)
                   | None \<Rightarrow>
                       (case property tag of
                          Some p \<Rightarrow> (og, objSet tw p (content tag), ot)
                        | None \<Rightarrow> (og, tw, ot)))
             else if \<not> falsy (name tag) \<and> name tag \<noteq> Some ''description''
             then (case name tag of
                     Some n \<Rightarrow> (og, tw, objSet ot n (content tag))
                   | None \<Rightarrow> (og, tw, ot))
             else (og, tw, ot))
          tags (Map.empty, Map.empty, ot) = (Map.empty, Map.empty, ot')"
  using assms
proof (induction tags arbitrary: ot)
  case Nil
  then show ?case by simp
next
  case (Cons t ts)
  from Cons.prems have t: "\<not> startsWith (property t) ''og:''"
    "\<not> startsWith (name t) ''twitter:''" "\<not> startsWith (property t) ''twitter:''"
    and ts: "\<forall>t \<in> set ts. \<not> startsWith (property t) ''og:''
             \<and> \<not> startsWith (name t) ''twitter:'' \<and> \<not> startsWith (property t) ''twitter:''"
    by simp_all
  show ?case
  proof (cases "\<not> falsy (name t) \<and> name t \<noteq> Some ''description''")
    case True
    then obtain n where n: "name t = Some n" by (auto simp: falsy_def)
    from Cons.IH [OF ts, of "objSet ot n (content t)"] t True n show ?thesis by simp
  next
    case False
    from Cons.IH [OF ts, of ot] t False show ?thesis by auto
  qed
qed

lemma groupTags_none:
  assumes "\<forall>t \<in> set tags. \<not> startsWith (property t) ''og:''
             \<and> \<not> startsWith (name t) ''twitter:'' \<and> \<not> startsWith (property t) ''twitter:''"
  shows "\<exists>ot. groupTags tags = (Map.empty, Map.empty, ot)"
  unfolding groupTags_def using groupTags_fold_none [OF assms] .

lemma score_digits: "showNat 1 = ''1''" "showNat (Suc 0) = ''1''" "showNat 8 = ''8''"
  by code_simp+

lemma metaTags_short_title:
  assumes "extractTitle html = Some ''Short''"
    and "find (\<lambda>t. name t = Some ''description'') (extractMetaTags html) = None"
    and "\<forall>t \<in> set (extractMetaTags html). \<not> startsWith (property t) ''og:''
           \<and> \<not> startsWith (name t) ''twitter:'' \<and> \<not> startsWith (property t) ''twitter:''"
    and "extractCanonical html = None"
  shows "ok (title (metaTags u html))"
    and "tip (title (metaTags u html)) = Some ''Title is short. Aim for 50-60 characters for better CTR.''"
    and "\<not> ok (description (metaTags u html))"
    and "MetaAnalysis.issues (metaTags u html) =
          [''Missing meta description'', ''Missing og:title'', ''Missing og:description'',
           ''Missing og:image (no preview image for social shares)'', ''Missing og:url'',
           ''Missing twitter:card'', ''No canonical URL set'']"
    and "MetaAnalysis.score (metaTags u html) = ''1/8''"
proof -
  from groupTags_none [OF assms(3)] obtain ot where
    g: "groupTags (extractMetaTags html) = (Map.empty, Map.empty, ot)" by blast
  show "ok (title (metaTags u html))"
    and "tip (title (metaTags u html)) = Some ''Title is short. Aim for 50-60 characters for better CTR.''"
    and "\<not> ok (description (metaTags u html))"
    and "MetaAnalysis.issues (metaTags u html) =
          [''Missing meta description'', ''Missing og:title'', ''Missing og:description'',
           ''Missing og:image (no preview image for social shares)'', ''Missing og:url'',
           ''Missing twitter:card'', ''No canonical URL set'']"
    and "MetaAnalysis.score (metaTags u html) = ''1/8''"
    unfolding metaTags_def Let_def assms(1,2,4) g
    by (simp_all add: falsy_def score_digits)
qed

subsection \<open>Two pages, extracted\<close>

lemma short_page:
  "extractTitle ''<title>Short</title>'' = Some ''Short''"
  "extractMetaTags ''<title>Short</title>'' = []"
  "extractCanonical ''<title>Short</title>'' = None"
  by code_simp+

lemma viewport_page:
  "extractTitle ''<title>Short</title><meta name=\"viewport\" content=\"width=device-width\">''
     = Some ''Short''"
  "extractMetaTags ''<title>Short</title><meta name=\"viewport\" content=\"width=device-width\">''
     = [\<lparr>property = None, name = Some ''viewport'', content = ''width=device-width''\<rparr>]"
  "extractCanonical ''<title>Short</title><meta name=\"viewport\" content=\"width=device-width\">''
     = None"
  by code_simp+

text \<open>
  C2, as stated, fails: on the markup \<open><title>Short</title>\<close>, which has no meta
  description and no Open Graph, Twitter or canonical tag, the score is \<open>1/8\<close>, not
  \<open>3/8\<close>.
\<close>

theorem metaTags_score_counterexample:
  "extractTitle ''<title>Short</title>'' = Some ''Short''
   \<and> extractMetaTags ''<title>Short</title>'' = []
   \<and> extractCanonical ''<title>Short</title>'' = None
   \<and> MetaAnalysis.score (metaTags ''https://example.com'' ''<title>Short</title>'') = ''1/8''
   \<and> MetaAnalysis.score (metaTags ''https://example.com'' ''<title>Short</title>'') \<noteq> ''3/8''"
proof -
  have "MetaAnalysis.score (metaTags ''https://example.com'' ''<title>Short</title>'') = ''1/8''"
    by (rule metaTags_short_title(5)) (simp_all add: short_page)
  then show ?thesis by (simp add: short_page)
qed

text \<open>
  C2, amended. On markup whose title is \<open>Short\<close> and which has no meta description
  and no Open Graph, Twitter or canonical tag, the meta-tag analyzer reports
  \<open>title.ok = true\<close> with the short-title tip, \<open>description.ok = false\<close> with the
  missing-description issue, and, the four Open Graph checks failing one by one, seven
  issues and the score \<open>1/8\<close>.
\<close>

theorem metaTags_short_title_report:
  assumes "extractTitle html = Some ''Short''"
    and "find (\<lambda>t. name t = Some ''description'') (extractMetaTags html) = None"
    and "\<forall>t \<in> set (extractMetaTags html). \<not> startsWith (property t) ''og:''
           \<and> \<not> startsWith (name t) ''twitter:'' \<and> \<not> startsWith (property t) ''twitter:''"
    and "extractCanonical html = None"
  shows "ok (title (metaTags u html))
       \<and> tip (title (metaTags u html)) = Some ''Title is short. Aim for 50-60 characters for better CTR.''
       \<and> \<not> ok (description (metaTags u html))
       \<and> ''Missing meta description'' \<in> set (MetaAnalysis.issues (metaTags u html))
       \<and> MetaAnalysis.issues (metaTags u html) =
            [''Missing meta description'', ''Missing og:title'', ''Missing og:description'',
             ''Missing og:image (no preview image for social shares)'', ''Missing og:url'',
             ''Missing twitter:card'', ''No canonical URL set'']
       \<and> MetaAnalysis.score (metaTags u html) = ''1/8''"
  using metaTags_short_title [OF assms, of u] by simp

theorem metaTags_short_title_report_witness:
  "extractTitle ''<title>Short</title><meta name=\"viewport\" content=\"width=device-width\">''
     = Some ''Short''
   \<and> extractMetaTags ''<title>Short</title><meta name=\"viewport\" content=\"width=device-width\">''
     = [\<lparr>property = None, name = Some ''viewport'', content = ''width=device-width''\<rparr>]
   \<and> extractCanonical ''<title>Short</title><meta name=\"viewport\" content=\"width=device-width\">''
     = None
   \<and> ok (title (metaTags ''https://example.com''
        ''<title>Short</title><meta name=\"viewport\" content=\"width=device-width\">''))
   \<and> \<not> ok (description (metaTags ''https://example.com''
        ''<title>Short</title><meta name=\"viewport\" content=\"width=device-width\">''))
   \<and> MetaAnalysis.score (metaTags ''https://example.com''
        ''<title>Short</title><meta name=\"viewport\" content=\"width=device-width\">'') = ''1/8''"
proof -
  let ?h = "''<title>Short</title><meta name=\"viewport\" content=\"width=device-width\">''"
  have h1: "extractTitle ?h = Some ''Short''" by (rule viewport_page)
  have h2: "find (\<lambda>t. name t = Some ''description'') (extractMetaTags ?h) = None"
    by (simp add: viewport_page)
  have h3: "\<forall>t \<in> set (extractMetaTags ?h). \<not> startsWith (property t) ''og:''
           \<and> \<not> startsWith (name t) ''twitter:'' \<and> \<not> startsWith (property t) ''twitter:''"
    by (simp add: viewport_page startsWith_def)
  have h4: "extractCanonical ?h = None" by (rule viewport_page)
  from metaTags_short_title_report [OF h1 h2 h3 h4, of "''https://example.com''"] viewport_page
  show ?thesis by simp
qed

end
